theory Spec2Isabelle
  imports Complex_Main "HOL-Library.AList"
begin

section \<open>JavaScript numbers\<close>

text \<open>
  The color utilities of \<^verbatim>\<open>src/src/extension.ts\<close> compute with JavaScript numbers, that
  is IEEE 754 binary64 values. A finite number is modelled by the real it denotes, and every
  arithmetic operation of the source is followed by \<open>fl\<close>, the rounding of the exact result
  to the nearest value with a 53-bit significand, ties to the even significand. The exponent
  range is not bounded (no overflow to Infinity, no subnormals): the quantities of this program
  are channel values, percentages and angles. \<open>NaN\<close> is \<open>None\<close> where the source can produce it
  (a failed \<^verbatim>\<open>parseInt\<close>). A numeric literal of the source denotes the binary64 value
  nearest to it, so \<^verbatim>\<open>0.3\<close> is \<open>fl (3/10)\<close>.
\<close>

fun bitlen :: "nat \<Rightarrow> nat" where
  "bitlen n = (if n = 0 then 0 else Suc (bitlen (n div 2)))"

declare bitlen.simps [simp del]

definition expo :: "real \<Rightarrow> int" where
  \<comment> \<open>the binary exponent \<open>e\<close> of \<open>x \<noteq> 0\<close>: \<open>2^e \<le> |x| < 2^(e+1)\<close>\<close>
  "expo x = (if 1 \<le> \<bar>x\<bar> then int (bitlen (nat \<lfloor>\<bar>x\<bar>\<rfloor>)) - 1
             else - int (bitlen (nat (\<lceil>1 / \<bar>x\<bar>\<rceil> - 1))))"

definition rne :: "real \<Rightarrow> int" where
  \<comment> \<open>round to the nearest integer, ties to even\<close>
  "rne y = (let f = \<lfloor>y\<rfloor>; d = y - of_int f in
     if d < 1 / 2 then f else if 1 / 2 < d then f + 1 else if even f then f else f + 1)"

definition fl :: "real \<Rightarrow> real" where
  "fl x = (if x = 0 then 0 else
     let u = 2 powi (expo x - 52) in of_int (rne (x / u)) * u)"

definition Math_round :: "real \<Rightarrow> int" where
  \<comment> \<open>\<^verbatim>\<open>Math.round\<close>: the nearest integer, a tie going up\<close>
  "Math_round x = \<lfloor>x + 1 / 2\<rfloor>"

definition js_rem :: "real \<Rightarrow> real \<Rightarrow> real" where
  \<comment> \<open>the \<^verbatim>\<open>%\<close> operator on finite numbers, divisor not zero: the remainder of the
      truncating division, which binary64 represents exactly\<close>
  "js_rem x y = (let q = x / y in x - y * of_int (if 0 \<le> q then \<lfloor>q\<rfloor> else \<lceil>q\<rceil>))"

section \<open>JavaScript strings\<close>

text \<open>
  A string is a list of characters; a \<open>char\<close> stands for a UTF-16 code unit below 256, which
  covers the hexadecimal color strings and the configuration keys of this program.
\<close>

definition slice :: "nat \<Rightarrow> nat \<Rightarrow> string \<Rightarrow> string" where
  \<comment> \<open>\<^verbatim>\<open>s.slice(i, j)\<close> for \<open>0 \<le> i \<le> j\<close>\<close>
  "slice i j s = take (j - i) (drop i s)"

definition padStart :: "nat \<Rightarrow> char \<Rightarrow> string \<Rightarrow> string" where
  "padStart n c s = replicate (n - length s) c @ s"

definition isWhiteSpace :: "char \<Rightarrow> bool" where
  \<comment> \<open>TAB, LF, VT, FF, CR, SP, NBSP: the white space of ECMAScript below code unit 256\<close>
  "isWhiteSpace c = (of_char c \<in> set [9, 10, 11, 12, 13, 32, 160 :: nat])"

definition hexValue :: "char \<Rightarrow> nat option" where
  "hexValue c = (let n = (of_char c :: nat) in
     if 48 \<le> n \<and> n \<le> 57 then Some (n - 48)
     else if 97 \<le> n \<and> n \<le> 102 then Some (n - 87)
     else if 65 \<le> n \<and> n \<le> 70 then Some (n - 55)
     else None)"

definition isHexDigit :: "char \<Rightarrow> bool" where
  "isHexDigit c = (case hexValue c of None \<Rightarrow> False | Some _ \<Rightarrow> True)"

definition hexNumber :: "string \<Rightarrow> nat" where
  "hexNumber z = foldl (\<lambda>a c. 16 * a + (case hexValue c of None \<Rightarrow> 0 | Some d \<Rightarrow> d)) 0 z"

definition parseInt16 :: "string \<Rightarrow> int option" where
  \<comment> \<open>\<^verbatim>\<open>parseInt(s, 16)\<close>: leading white space, a sign, a \<^verbatim>\<open>0x\<close> prefix, then the
      longest run of hexadecimal digits; \<open>None\<close> is \<^verbatim>\<open>NaN\<close>\<close>
  "parseInt16 s =
     (let t = dropWhile isWhiteSpace s;
          sign = (case t of [] \<Rightarrow> 1 | c # _ \<Rightarrow> if c = CHR ''-'' then - 1 else (1 :: int));
          u = (case t of [] \<Rightarrow> [] | c # cs \<Rightarrow> if c = CHR ''+'' \<or> c = CHR ''-'' then cs else t);
          v = (if take 2 u = ''0x'' \<or> take 2 u = ''0X'' then drop 2 u else u);
          z = takeWhile isHexDigit v
      in if z = [] then None else Some (sign * int (hexNumber z)))"

definition hexDigit :: "nat \<Rightarrow> char" where
  "hexDigit d = ''0123456789abcdef'' ! (d mod 16)"

fun hexDigits :: "nat \<Rightarrow> string" where
  "hexDigits n = (if n < 16 then [hexDigit n] else hexDigits (n div 16) @ [hexDigit (n mod 16)])"

declare hexDigits.simps [simp del]

definition toString16 :: "int option \<Rightarrow> string" where
  \<comment> \<open>\<^verbatim>\<open>x.toString(16)\<close> for an integral number or \<^verbatim>\<open>NaN\<close>\<close>
  "toString16 x = (case x of None \<Rightarrow> ''NaN''
     | Some n \<Rightarrow> if n < 0 then CHR ''-'' # hexDigits (nat (- n)) else hexDigits (nat n))"

section \<open>Color utilities\<close>

definition randomHsl :: "real \<times> real \<times> real \<Rightarrow> real \<times> real \<times> real" where
  \<comment> \<open>the argument holds the three values that \<^verbatim>\<open>Math.random()\<close> returns, each in \<open>[0, 1)\<close>\<close>
  "randomHsl rnd = (case rnd of (r1, r2, r3) \<Rightarrow>
     (of_int \<lfloor>fl (r1 * 360)\<rfloor>,
      fl (60 + of_int \<lfloor>fl (r2 * 20)\<rfloor>),
      fl (40 + of_int \<lfloor>fl (r3 * 10)\<rfloor>)))"

definition hslToHex_f :: "real \<Rightarrow> real \<Rightarrow> real \<Rightarrow> real \<Rightarrow> string" where
  \<comment> \<open>the local closure \<^verbatim>\<open>f\<close> of \<^verbatim>\<open>hslToHex\<close>, with the \<open>h\<close>, \<open>l\<close> and \<open>a\<close> it captures\<close>
  "hslToHex_f h l a n =
     (let k = js_rem (fl (n + fl (h / 30))) 12;
          color = fl (l - fl (a * max (min (fl (k - 3)) (min (fl (9 - k)) 1)) (- 1)))
      in padStart 2 CHR ''0'' (toString16 (Some (Math_round (fl (255 * color))))))"

definition hslToHex :: "real \<Rightarrow> real \<Rightarrow> real \<Rightarrow> string" where
  "hslToHex h s l =
     (let s = fl (s / 100);
          l = fl (l / 100);
          a = fl (s * min l (fl (1 - l)))
      in ''#'' @ hslToHex_f h l a 0 @ hslToHex_f h l a 8 @ hslToHex_f h l a 4)"

definition darkenChannel :: "int option \<Rightarrow> real \<Rightarrow> int option" where
  \<comment> \<open>\<^verbatim>\<open>Math.round(r * (1 - amount))\<close>, which is \<^verbatim>\<open>NaN\<close> when \<open>r\<close> is\<close>
  "darkenChannel r amount = map_option (\<lambda>r. Math_round (fl (of_int r * fl (1 - amount)))) r"

definition darken :: "string \<Rightarrow> real \<Rightarrow> string" where
  "darken hex amount =
     (let r = parseInt16 (slice 1 3 hex);
          g = parseInt16 (slice 3 5 hex);
          b = parseInt16 (slice 5 7 hex);
          dr = darkenChannel r amount;
          dg = darkenChannel g amount;
          db = darkenChannel b amount
      in ''#'' @ padStart 2 CHR ''0'' (toString16 dr) @ padStart 2 CHR ''0'' (toString16 dg)
           @ padStart 2 CHR ''0'' (toString16 db))"

text \<open>
  \<^verbatim>\<open>Math.pow\<close> is implementation-approximated in ECMAScript, so the functions that reach
  it take the host's \<open>pow\<close>, a function from two finite numbers to a finite number, as a
  parameter; nothing else is assumed of it.
\<close>

definition toLinear :: "(real \<Rightarrow> real \<Rightarrow> real) \<Rightarrow> real \<Rightarrow> real" where
  "toLinear pow c =
     (if c \<le> fl (3928 / 100000) then fl (c / fl (1292 / 100))
      else pow (fl (fl (c + fl (55 / 1000)) / fl (1055 / 1000))) (fl (24 / 10)))"

definition channel :: "nat \<Rightarrow> string \<Rightarrow> real option" where
  \<comment> \<open>\<^verbatim>\<open>parseInt(hex.slice(i, i + 2), 16) / 255\<close>\<close>
  "channel i hex = map_option (\<lambda>n. fl (of_int n / 255)) (parseInt16 (slice i (i + 2) hex))"

definition luminance :: "(real \<Rightarrow> real \<Rightarrow> real) \<Rightarrow> string \<Rightarrow> real option" where
  \<comment> \<open>the local \<^verbatim>\<open>luminance\<close> of \<^verbatim>\<open>contrastForeground\<close>; \<open>None\<close> is \<^verbatim>\<open>NaN\<close>\<close>
  "luminance pow hex =
     (case (channel 1 hex, channel 3 hex, channel 5 hex) of
        (Some r, Some g, Some b) \<Rightarrow>
          Some (fl (fl (fl (fl (2126 / 10000) * toLinear pow r)
                        + fl (fl (7152 / 10000) * toLinear pow g))
                    + fl (fl (722 / 10000) * toLinear pow b)))
      | _ \<Rightarrow> None)"

definition contrastForeground :: "(real \<Rightarrow> real \<Rightarrow> real) \<Rightarrow> string \<Rightarrow> string" where
  "contrastForeground pow hex =
     (case luminance pow hex of
        None \<Rightarrow> ''#ffffff''
      | Some lum \<Rightarrow> if fl (179 / 1000) < lum then ''#000000'' else ''#ffffff'')"

definition generateRandomColor :: "real \<times> real \<times> real \<Rightarrow> string" where
  "generateRandomColor rnd = (case randomHsl rnd of (h, s, l) \<Rightarrow> hslToHex h s l)"

text \<open>
  The WCAG relative luminance as section 4.1 of the specification gives it, of a color given
  by its three channel values \<open>0..255\<close>: each channel is normalized to \<open>[0, 1]\<close> and
  linearized by the sRGB piecewise transform, and the three are weighted and added. The
  specification asks for bit-compatible behaviour under identical floating-point rounding
  rules, so the arithmetic is binary64 and the exponentiation is the host's.
\<close>

definition wcag_linearized :: "(real \<Rightarrow> real \<Rightarrow> real) \<Rightarrow> nat \<Rightarrow> real" where
  "wcag_linearized pow n =
     (let c = fl (real n / 255) in
      if c \<le> fl (3928 / 100000) then fl (c / fl (1292 / 100))
      else pow (fl (fl (c + fl (55 / 1000)) / fl (1055 / 1000))) (fl (24 / 10)))"

definition wcag_luminance :: "(real \<Rightarrow> real \<Rightarrow> real) \<Rightarrow> nat \<Rightarrow> nat \<Rightarrow> nat \<Rightarrow> real" where
  "wcag_luminance pow r g b =
     fl (fl (fl (fl (2126 / 10000) * wcag_linearized pow r)
             + fl (fl (7152 / 10000) * wcag_linearized pow g))
         + fl (fl (722 / 10000) * wcag_linearized pow b))"

section \<open>The host: persisted colors, workspace configuration, messages\<close>

text \<open>
  The extension keeps no state of its own besides the watcher's two variables. Everything
  else lives in the editor: \<^verbatim>\<open>context.globalState\<close> (the persisted colors), the workspace
  value of \<^verbatim>\<open>workbench.colorCustomizations\<close> (the shared configuration blob, \<open>None\<close> when
  unset), the setting \<^verbatim>\<open>worktreeRainbow.defaultBranches\<close> and the active document. A
  read of the blob returns what was written last: the blob is one value, and the layering of
  user and workspace settings behind \<^verbatim>\<open>config.get\<close> is not modelled. The
  record \<open>host\<close> holds them, together with the sequence of calls made to the store, to the
  blob and to the message windows, oldest first, so that "no store interaction" can be stated.
  A call to the host is taken to complete, as section 5 of the specification assumes; the
  \<^verbatim>\<open>catch\<close> handlers of the source, which only run when a host call rejects, are therefore
  not part of the model.

  An object is the list of its own enumerable properties in property order; a key occurs
  once: \<open>distinct (map fst obj)\<close> is the invariant of the representation. Any string can be
  an own key of the blob, also \<^verbatim>\<open>__proto__\<close>. Property values are plain data.
\<close>

datatype json = JNull | JBool bool | JNum real | JStr string
  | JArr "json list" | JObj "(string \<times> json) list"

type_synonym jsobject = "(string \<times> json) list"

datatype effect =
    StoreGet string
  | StoreUpdate string "string option"
  | ConfigGet
  | ConfigUpdate "jsobject option"
  | ShowWarning string
  | ShowInformation string

record host =
  globalState :: "string \<rightharpoonup> string"
  colorCustomizations :: "jsobject option"
  defaultBranches :: "string list option"
  activeDocument :: "string option"
  pathSep :: string
  effects :: "effect list"

record branch =
  name :: "string option"

record repositoryState =
  HEAD :: "branch option"

record repository =
  state :: repositoryState
  rootUri :: string

record gitAPI =
  repositories :: "repository list"

definition record_effect :: "effect \<Rightarrow> host \<Rightarrow> host" where
  "record_effect e s = s\<lparr>effects := effects s @ [e]\<rparr>"

text \<open>\<^verbatim>\<open>context.globalState\<close> is a \<^verbatim>\<open>Memento\<close>: \<^verbatim>\<open>get\<close> and \<^verbatim>\<open>update\<close>.\<close>

definition memento_get :: "string \<Rightarrow> host \<Rightarrow> string option \<times> host" where
  "memento_get key s = (globalState s key, record_effect (StoreGet key) s)"

definition memento_update :: "string \<Rightarrow> string option \<Rightarrow> host \<Rightarrow> host" where
  \<comment> \<open>storing \<^verbatim>\<open>undefined\<close> removes the key\<close>
  "memento_update key v s =
     record_effect (StoreUpdate key v) (s\<lparr>globalState := (globalState s)(key := v)\<rparr>)"

definition config_get :: "host \<Rightarrow> jsobject option \<times> host" where
  "config_get s = (colorCustomizations s, record_effect ConfigGet s)"

definition config_update :: "jsobject option \<Rightarrow> host \<Rightarrow> host" where
  "config_update v s = record_effect (ConfigUpdate v) (s\<lparr>colorCustomizations := v\<rparr>)"

definition showWarningMessage :: "string \<Rightarrow> host \<Rightarrow> host" where
  "showWarningMessage m s = record_effect (ShowWarning m) s"

definition showInformationMessage :: "string \<Rightarrow> host \<Rightarrow> host" where
  "showInformationMessage m s = record_effect (ShowInformation m) s"

definition spread :: "jsobject \<Rightarrow> (string \<times> json) list \<Rightarrow> jsobject" where
  \<comment> \<open>the properties of an object literal, defined one after the other (also those copied
      by \<^verbatim>\<open>...existing\<close>): an existing key keeps its place and takes the new value, a new
      key goes to the end. A definition never runs a setter, so \<^verbatim>\<open>__proto__\<close> is a key like
      any other here.\<close>
  "spread obj props = foldl (\<lambda>acc (k, v). AList.update k v acc) obj props"

definition blobEntries :: "host \<Rightarrow> jsobject" where
  \<comment> \<open>\<^verbatim>\<open>config.get("colorCustomizations") ?? {}\<close>, for the statements below\<close>
  "blobEntries s = (case colorCustomizations s of None \<Rightarrow> [] | Some obj \<Rightarrow> obj)"

definition blobLookup :: "host \<Rightarrow> string \<Rightarrow> json option" where
  \<comment> \<open>the value of a key in the shared configuration blob, \<open>None\<close> when the key is absent\<close>
  "blobLookup s k = map_of (blobEntries s) k"

section \<open>Core logic\<close>

definition colorKey :: "string \<Rightarrow> string \<Rightarrow> string" where
  "colorKey repoPath branchName = ''colors:'' @ repoPath @ '':'' @ branchName"

definition isDefaultBranch :: "string \<Rightarrow> host \<Rightarrow> bool" where
  "isDefaultBranch branchName s =
     (let defaults = (case defaultBranches s of None \<Rightarrow> [''main'', ''master''] | Some d \<Rightarrow> d)
      in branchName \<in> set defaults)"

definition isMatch :: "string \<Rightarrow> string \<Rightarrow> string \<Rightarrow> bool" where
  \<comment> \<open>\<^verbatim>\<open>uri.fsPath === root || uri.fsPath.startsWith(root + path.sep)\<close>\<close>
  "isMatch sep fsPath rootPath =
     (fsPath = rootPath \<or> take (length (rootPath @ sep)) fsPath = rootPath @ sep)"

definition resolveRepository :: "gitAPI \<Rightarrow> host \<Rightarrow> repository option" where
  "resolveRepository git s =
     (let first = (case repositories git of [] \<Rightarrow> None | r # _ \<Rightarrow> Some r) in
      case activeDocument s of
        None \<Rightarrow> first
      | Some fsPath \<Rightarrow>
          (case fst (foldl (\<lambda>(best, bestLen) repo.
                       let rootPath = rootUri repo in
                       if isMatch (pathSep s) fsPath rootPath \<and> bestLen < int (length rootPath)
                       then (Some repo, int (length rootPath)) else (best, bestLen))
                     (None, - 1) (repositories git)) of
             Some best \<Rightarrow> Some best
           | None \<Rightarrow> first))"

definition MANAGED_KEYS :: "string list" where
  "MANAGED_KEYS =
     [''titleBar.activeBackground'', ''titleBar.activeForeground'',
      ''titleBar.inactiveBackground'', ''titleBar.inactiveForeground'',
      ''statusBar.background'', ''statusBar.foreground'']"

definition palette :: "(real \<Rightarrow> real \<Rightarrow> real) \<Rightarrow> string \<Rightarrow> (string \<times> json) list" where
  \<comment> \<open>the six properties that \<^verbatim>\<open>applyColor\<close> writes after \<^verbatim>\<open>...existing\<close>\<close>
  "palette pow color =
     (let fg = contrastForeground pow color;
          inactiveBg = darken color (fl (3 / 10));
          inactiveFg = contrastForeground pow inactiveBg
      in [(''titleBar.activeBackground'', JStr color),
          (''titleBar.activeForeground'', JStr fg),
          (''titleBar.inactiveBackground'', JStr inactiveBg),
          (''titleBar.inactiveForeground'', JStr inactiveFg),
          (''statusBar.background'', JStr color),
          (''statusBar.foreground'', JStr fg)])"

definition applyColor :: "(real \<Rightarrow> real \<Rightarrow> real) \<Rightarrow> string \<Rightarrow> host \<Rightarrow> host" where
  "applyColor pow color s =
     (case config_get s of (cfg, s1) \<Rightarrow>
        let existing = (case cfg of None \<Rightarrow> [] | Some obj \<Rightarrow> obj);
            updated = spread [] (existing @ palette pow color)
        in config_update (Some updated) s1)"

definition assign :: "string \<Rightarrow> json \<Rightarrow> jsobject \<Rightarrow> jsobject" where
  \<comment> \<open>the assignment \<^verbatim>\<open>obj[key] = value\<close> to an object that started as \<^verbatim>\<open>{}\<close>. The key
      \<^verbatim>\<open>__proto__\<close> is inherited from \<^verbatim>\<open>Object.prototype\<close> as an accessor: its setter
      changes the prototype (for an object or \<^verbatim>\<open>null\<close>) or does nothing, and no own property
      is created. Any other key becomes an own property or, if it is one, takes the new value;
      a prototype made of plain data has no setter and no read-only property to prevent it.\<close>
  "assign k v obj = (if k = ''__proto__'' then obj else AList.update k v obj)"

definition clearColor_loop :: "jsobject \<Rightarrow> jsobject \<Rightarrow> jsobject" where
  \<comment> \<open>the \<^verbatim>\<open>for\<close> loop of \<^verbatim>\<open>clearColor\<close> over \<^verbatim>\<open>Object.entries(existing)\<close>, from the
      value \<open>acc\<close> of \<^verbatim>\<open>cleaned\<close>\<close>
  "clearColor_loop acc entries =
     foldl (\<lambda>acc (k, v). if k \<in> set MANAGED_KEYS then acc else assign k v acc)
       acc entries"

definition clearColor :: "host \<Rightarrow> host" where
  "clearColor s =
     (case config_get s of (cfg, s1) \<Rightarrow>
        let existing = (case cfg of None \<Rightarrow> [] | Some obj \<Rightarrow> obj);
            cleaned = clearColor_loop [] existing;
            target = (if 0 < length (map fst cleaned) then Some cleaned else None)
        in config_update target s1)"

definition branchName :: "repository \<Rightarrow> string option" where
  \<comment> \<open>\<^verbatim>\<open>repo.state.HEAD?.name\<close>\<close>
  "branchName repo = (case HEAD (state repo) of None \<Rightarrow> None | Some b \<Rightarrow> name b)"

definition handleBranchChange ::
  "(real \<Rightarrow> real \<Rightarrow> real) \<Rightarrow> real \<times> real \<times> real \<Rightarrow> repository \<Rightarrow> host \<Rightarrow> host" where
  \<comment> \<open>\<open>rnd\<close> holds the random numbers that are drawn if a color has to be generated;
      \<^verbatim>\<open>!x\<close> holds of \<^verbatim>\<open>undefined\<close> and of the empty string\<close>
  "handleBranchChange pow rnd repo s =
     (case branchName repo of
        None \<Rightarrow> clearColor s
      | Some bn \<Rightarrow>
          if bn = [] then clearColor s
          else if isDefaultBranch bn s then clearColor s
          else
            let repoPath = rootUri repo;
                key = colorKey repoPath bn
            in case memento_get key s of (stored, s1) \<Rightarrow>
              let generated = generateRandomColor rnd;
                  fresh = (generated, memento_update key (Some generated) s1)
              in case (case stored of None \<Rightarrow> fresh
                       | Some c \<Rightarrow> if c = [] then fresh else (c, s1)) of
                   (color, s2) \<Rightarrow> applyColor pow color s2)"

section \<open>Commands\<close>

definition quoted :: "string \<Rightarrow> string" where
  "quoted x = [char_of (34 :: nat)] @ x @ [char_of (34 :: nat)]"

definition reroll ::
  "(real \<Rightarrow> real \<Rightarrow> real) \<Rightarrow> real \<times> real \<times> real \<Rightarrow> gitAPI \<Rightarrow> host \<Rightarrow> host" where
  \<comment> \<open>the command \<^verbatim>\<open>worktreeRainbow.reroll\<close>\<close>
  "reroll pow rnd git s =
     (case resolveRepository git s of
        None \<Rightarrow> showWarningMessage ''Worktree Rainbow: No git repository found.'' s
      | Some repo \<Rightarrow>
          let noBranch = showWarningMessage ''Worktree Rainbow: No branch detected.'' s in
          (case branchName repo of
             None \<Rightarrow> noBranch
           | Some bn \<Rightarrow>
               if bn = [] then noBranch
               else if isDefaultBranch bn s then
                 showInformationMessage
                   (''Worktree Rainbow: '' @ quoted bn @ '' is a default branch (no color applied).'') s
               else
                 let repoPath = rootUri repo;
                     key = colorKey repoPath bn;
                     color = generateRandomColor rnd;
                     s1 = memento_update key (Some color) s;
                     s2 = applyColor pow color s1
                 in showInformationMessage
                      (''Worktree Rainbow: New color '' @ color @ '' for '' @ quoted bn) s2))"

definition clear :: "gitAPI \<Rightarrow> host \<Rightarrow> host" where
  \<comment> \<open>the command \<^verbatim>\<open>worktreeRainbow.clear\<close>\<close>
  "clear git s =
     (let s1 = (case resolveRepository git s of
                  None \<Rightarrow> s
                | Some repo \<Rightarrow>
                    (case branchName repo of
                       None \<Rightarrow> s
                     | Some bn \<Rightarrow>
                         if bn = [] then s
                         else let repoPath = rootUri repo;
                                  key = colorKey repoPath bn
                              in memento_update key None s));
          s2 = clearColor s1
      in showInformationMessage ''Worktree Rainbow: Color cleared.'' s2)"

section \<open>The watcher\<close>

text \<open>
  \<^verbatim>\<open>watchRepo\<close> keeps two variables for a repository: \<^verbatim>\<open>lastBranch\<close>, and the promise
  chain \<^verbatim>\<open>pending\<close>. Each \<^verbatim>\<open>pending.then(...)\<close> appends one call of
  \<^verbatim>\<open>handleBranchChange\<close> that starts when everything chained before it has settled, so the
  chain is the list of the calls not yet run, first in first out. An entry of the list is the
  name that \<^verbatim>\<open>enqueue\<close> observed when it chained the call; the call itself reads
  \<^verbatim>\<open>repo.state.HEAD\<close> again when it runs (line 173), so the entry is a label and not an
  argument. Between two of its suspension points a call of \<^verbatim>\<open>handleBranchChange\<close> touches
  only the store and the blob, and it has read the branch name before the first of them, so a
  call is one step of the model.
\<close>

record watcher =
  lastBranch :: "string option"
  pending :: "string option list"

definition enqueue :: "repository \<Rightarrow> watcher \<Rightarrow> watcher" where
  "enqueue repo w =
     (let current = branchName repo in
      if current \<noteq> lastBranch w
      then w\<lparr>lastBranch := current, pending := pending w @ [current]\<rparr>
      else w)"

definition watchRepo :: "repository \<Rightarrow> watcher" where
  \<comment> \<open>the state of the two variables once \<^verbatim>\<open>watchRepo\<close> has returned\<close>
  "watchRepo repo = enqueue repo \<lparr>lastBranch = None, pending = []\<rparr>"

record system =
  watched :: repository
  watch :: watcher
  vscode :: host
  finished :: "string option list"

datatype event =
    Change "branch option"
  | Run "real \<times> real \<times> real"

definition step :: "(real \<Rightarrow> real \<Rightarrow> real) \<Rightarrow> system \<Rightarrow> event \<Rightarrow> system" where
  \<comment> \<open>\<open>Change b\<close>: the repository's \<open>HEAD\<close> is now \<open>b\<close> and \<^verbatim>\<open>onDidChange\<close> fires;
      \<open>Run rnd\<close>: the event loop runs the first pending call, if there is one.
      \<open>finished\<close> lists the labels of the calls that have run; no operation reads it.\<close>
  "step pow sys ev =
     (case ev of
        Change b \<Rightarrow>
          let r = (watched sys)\<lparr>state := \<lparr>HEAD = b\<rparr>\<rparr>
          in sys\<lparr>watched := r, watch := enqueue r (watch sys)\<rparr>
      | Run rnd \<Rightarrow>
          (case pending (watch sys) of
             [] \<Rightarrow> sys
           | t # ts \<Rightarrow>
               sys\<lparr>watch := (watch sys)\<lparr>pending := ts\<rparr>,
                   vscode := handleBranchChange pow rnd (watched sys) (vscode sys),
                   finished := finished sys @ [t]\<rparr>))"

definition register :: "repository \<Rightarrow> host \<Rightarrow> system" where
  \<comment> \<open>\<^verbatim>\<open>watchRepo(repo)\<close>, at activation or from \<^verbatim>\<open>onDidOpenRepository\<close>\<close>
  "register r s = \<lparr>watched = r, watch = watchRepo r, vscode = s, finished = []\<rparr>"

definition run :: "(real \<Rightarrow> real \<Rightarrow> real) \<Rightarrow> system \<Rightarrow> event list \<Rightarrow> system" where
  "run pow sys evs = foldl (step pow) sys evs"

text \<open>
  For the statement of the queue discipline: the names that the change notifications of a run
  report, and the names that enter the queue according to section 5 of the specification: "the
  watcher tracks the last branch name it actually enqueued work for", and "a notification is
  only enqueued when the branch name differs from the last enqueued one". What was enqueued
  last is either nothing yet, or a name, or the detached state; the three are kept apart.
\<close>

datatype enqueued_last = NothingYet | Last "string option"

definition headName :: "branch option \<Rightarrow> string option" where
  "headName b = (case b of None \<Rightarrow> None | Some br \<Rightarrow> name br)"

fun reported :: "event list \<Rightarrow> string option list" where
  "reported [] = []"
| "reported (Change b # evs) = headName b # reported evs"
| "reported (Run rnd # evs) = reported evs"

fun spec_enqueued :: "enqueued_last \<Rightarrow> string option list \<Rightarrow> string option list" where
  "spec_enqueued prev [] = []"
| "spec_enqueued prev (n # ns) =
     (if prev = Last n then spec_enqueued prev ns else n # spec_enqueued (Last n) ns)"

section \<open>Example states\<close>

text \<open>Concrete inputs at which the theorems below are instantiated.\<close>

definition host0 :: host where
  "host0 = \<lparr>globalState = Map.empty, colorCustomizations = None, defaultBranches = None,
            activeDocument = None, pathSep = ''/'', effects = []\<rparr>"

definition colored :: jsobject where
  "colored = [(''titleBar.activeBackground'', JStr ''#c32222'')]"


definition repoOn :: "string option \<Rightarrow> repository" where
  "repoOn n = \<lparr>state = \<lparr>HEAD = Some \<lparr>name = n\<rparr>\<rparr>, rootUri = ''/work/app''\<rparr>"

definition repoDetached :: repository where
  "repoDetached = \<lparr>state = \<lparr>HEAD = None\<rparr>, rootUri = ''/work/app''\<rparr>"

section \<open>The rounding\<close>

text \<open>
  \<open>expo\<close> is the binary exponent, so \<open>fl x\<close> is a multiple of \<open>2^(expo x - 52)\<close> at
  most half such a unit away from \<open>x\<close>; integers below \<open>2^53\<close> in magnitude are not changed.
\<close>

lemma bitlen_bounds: "0 < n \<Longrightarrow> 2 ^ (bitlen n - 1) \<le> n \<and> n < 2 ^ bitlen n"
proof (induction n rule: bitlen.induct)
  case (1 n)
  show ?case
  proof (cases "n div 2 = 0")
    case True
    with "1.prems" have "n = 1" by (simp add: div_eq_0_iff)
    then show ?thesis by (simp add: bitlen.simps)
  next
    case False
    then have pos: "0 < n div 2" by simp
    from "1.prems" have n0: "n \<noteq> 0" by simp
    from "1.IH"[OF n0 pos] have lo: "2 ^ (bitlen (n div 2) - 1) \<le> n div 2"
      and hi: "n div 2 < 2 ^ bitlen (n div 2)" by simp_all
    have b: "bitlen n = Suc (bitlen (n div 2))"
      using n0 by (subst bitlen.simps) simp
    have bp: "0 < bitlen (n div 2)"
      using pos by (subst bitlen.simps) simp
    have "2 ^ (bitlen n - 1) = 2 * 2 ^ (bitlen (n div 2) - 1)"
      using bp by (simp add: b power_Suc[symmetric] del: power_Suc)
    also have "\<dots> \<le> 2 * (n div 2)" using lo by simp
    also have "\<dots> \<le> n" by simp
    finally have 1: "2 ^ (bitlen n - 1) \<le> n" .
    have "n < 2 * (n div 2) + 2" by presburger
    also have "\<dots> \<le> 2 * 2 ^ bitlen (n div 2)" using hi by simp
    finally have "n < 2 ^ bitlen n" by (simp add: b)
    with 1 show ?thesis by simp
  qed
qed

lemma expo_bounds:
  assumes "x \<noteq> 0"
  shows "2 powi expo x \<le> \<bar>x\<bar> \<and> \<bar>x\<bar> < 2 powi (expo x + 1)"
proof (cases "1 \<le> \<bar>x\<bar>")
  case True
  define n where "n = nat \<lfloor>\<bar>x\<bar>\<rfloor>"
  have npos: "0 < n" using True by (simp add: n_def)
  have e: "expo x = int (bitlen n) - 1" using True by (simp add: expo_def n_def)
  from bitlen_bounds[OF npos] have lo: "2 ^ (bitlen n - 1) \<le> n" and hi: "n < 2 ^ bitlen n"
    by simp_all
  have bpos: "0 < bitlen n" using npos by (subst bitlen.simps) simp
  have nle: "real n \<le> \<bar>x\<bar>"
    by (simp add: n_def)
  have xlt: "\<bar>x\<bar> < real n + 1"
    by (simp add: n_def)
  have p1: "(2::real) powi expo x = 2 ^ (bitlen n - 1)"
    using bpos by (simp add: e power_int_def nat_diff_distrib')
  have p2: "(2::real) powi (expo x + 1) = 2 ^ bitlen n"
    by (simp add: e power_int_def)
  have "(2::real) ^ (bitlen n - 1) \<le> real n"
    using lo by (metis of_nat_le_iff of_nat_numeral of_nat_power)
  with nle have 1: "2 powi expo x \<le> \<bar>x\<bar>" unfolding p1 by linarith
  have "real n + 1 \<le> 2 ^ bitlen n"
    using hi by (metis Suc_leI of_nat_Suc of_nat_le_iff of_nat_numeral of_nat_power add.commute)
  with xlt have "\<bar>x\<bar> < 2 powi (expo x + 1)" unfolding p2 by linarith
  with 1 show ?thesis by simp
next
  case False
  define y where "y = 1 / \<bar>x\<bar>"
  have ax: "0 < \<bar>x\<bar>" using assms by simp
  have y1: "1 < y" using False ax by (simp add: y_def)
  define m where "m = nat (\<lceil>y\<rceil> - 1)"
  have mpos: "0 < m" using y1 by (simp add: m_def)
  have e: "expo x = - int (bitlen m)" using False by (simp add: expo_def m_def y_def)
  from bitlen_bounds[OF mpos] have lo: "2 ^ (bitlen m - 1) \<le> m" and hi: "m < 2 ^ bitlen m"
    by simp_all
  have bpos: "0 < bitlen m" using mpos by (subst bitlen.simps) simp
  have mlt: "real m < y" and yle: "y \<le> real m + 1"
    using y1 by (simp_all add: m_def) linarith+
  have "(2::real) ^ (bitlen m - 1) \<le> real m"
    using lo by (metis of_nat_le_iff of_nat_numeral of_nat_power)
  with mlt have a: "2 ^ (bitlen m - 1) < y" by linarith
  have "real m + 1 \<le> 2 ^ bitlen m"
    using hi by (metis Suc_leI of_nat_Suc of_nat_le_iff of_nat_numeral of_nat_power add.commute)
  with yle have b: "y \<le> 2 ^ bitlen m" by linarith
  have x_eq: "\<bar>x\<bar> = 1 / y" using ax by (simp add: y_def)
  have p1: "(2::real) powi expo x = 1 / 2 ^ bitlen m"
    by (simp only: e power_int_minus power_int_of_nat inverse_eq_divide)
  have p2: "(2::real) powi (expo x + 1) = 1 / 2 ^ (bitlen m - 1)"
  proof -
    have "expo x + 1 = - int (bitlen m - 1)" using bpos by (simp add: e)
    then have "(2::real) powi (expo x + 1) = 2 powi (- int (bitlen m - 1))" by (simp only:)
    also have "\<dots> = 1 / 2 ^ (bitlen m - 1)"
      by (simp only: power_int_minus power_int_of_nat inverse_eq_divide)
    finally show ?thesis .
  qed
  have ypos: "0 < y" using y1 by simp
  have 1: "2 powi expo x \<le> \<bar>x\<bar>"
    unfolding p1 x_eq using b ypos by (simp add: frac_le)
  have 2: "\<bar>x\<bar> < 2 powi (expo x + 1)"
    unfolding p2 x_eq using a ypos by (simp add: frac_less2)
  from 1 2 show ?thesis by simp
qed

lemma rne_close: "\<bar>of_int (rne y) - y\<bar> \<le> 1 / 2"
  unfolding rne_def Let_def by (auto simp: abs_if) linarith+

lemma rne_of_int: "rne (of_int k) = k"
  by (simp add: rne_def)

lemma fl_error:
  "\<bar>fl x - x\<bar> \<le> 2 powi (expo x - 53)"
proof (cases "x = 0")
  case True
  then show ?thesis by (simp add: fl_def)
next
  case False
  define u :: real where "u = 2 powi (expo x - 52)"
  have upos: "0 < u" by (simp add: u_def)
  have f: "fl x = of_int (rne (x / u)) * u" using False by (simp add: fl_def u_def Let_def)
  have "fl x - x = (of_int (rne (x / u)) - x / u) * u"
    using upos by (simp add: f left_diff_distrib)
  then have "\<bar>fl x - x\<bar> = \<bar>of_int (rne (x / u)) - x / u\<bar> * u"
    using upos by (simp add: abs_mult)
  also have "\<dots> \<le> (1 / 2) * u"
    using rne_close[of "x / u"] upos by (intro mult_right_mono) simp_all
  also have "\<dots> = 2 powi (expo x - 53)"
    by (simp add: u_def power_int_diff)
  finally show ?thesis .
qed

lemma fl_of_int:
  assumes "\<bar>n\<bar> < 2 ^ 53"
  shows "fl (of_int n) = of_int n"
proof (cases "n = 0")
  case True
  then show ?thesis by (simp add: fl_def)
next
  case False
  define x :: real where "x = of_int n"
  have x0: "x \<noteq> 0" using False by (simp add: x_def)
  have "\<bar>x\<bar> < 2 ^ 53"
    unfolding x_def using assms
    by (metis of_int_abs of_int_less_iff of_int_numeral of_int_power)
  with expo_bounds[OF x0] have "(2::real) powi expo x < 2 powi 53" by simp
  then have "expo x < 53"
    by (rule power_int_le_imp_less_exp[rotated]) simp_all
  define k where "k = nat (52 - expo x)"
  have e: "expo x - 52 = - int k" using \<open>expo x < 53\<close> by (simp add: k_def)
  have u: "(2::real) powi (expo x - 52) = inverse (2 ^ k)"
    by (simp only: e power_int_minus power_int_of_nat)
  have "x / inverse (2 ^ k) = of_int (n * 2 ^ k)"
    by (simp add: x_def field_simps)
  then have "rne (x / inverse (2 ^ k)) = n * 2 ^ k"
    by (simp only: rne_of_int)
  then have "fl x = of_int (n * 2 ^ k) * inverse (2 ^ k)"
    using x0 by (simp add: fl_def Let_def u)
  also have "\<dots> = x" by (simp add: x_def field_simps)
  finally show ?thesis by (simp only: x_def)
qed

section \<open>Properties of the color utilities\<close>

text \<open>
  C7. \<^verbatim>\<open>hslToHex\<close> is a function of its three arguments alone (it reads no state and draws
  no random number), and at hue 0, saturation 70, lightness 45 it returns exactly
  \<^verbatim>\<open>#c32222\<close>: red first, then green, then blue, each channel rounded to the nearest integer.
\<close>

lemma hslToHex_example_sla:
  "fl (70 / 100) = 3152519739159347 / 4503599627370496"
  "fl (45 / 100) = 8106479329266893 / 18014398509481984"
  "fl (3152519739159347 / 4503599627370496 *
       min (8106479329266893 / 18014398509481984)
           (fl (1 - 8106479329266893 / 18014398509481984)))
   = 5674535530486825 / 18014398509481984"
  by code_simp+

lemma hslToHex_example_f:
  "hslToHex_f 0 (8106479329266893 / 18014398509481984)
       (5674535530486825 / 18014398509481984) 0 = ''c3''"
  "hslToHex_f 0 (8106479329266893 / 18014398509481984)
       (5674535530486825 / 18014398509481984) 8 = ''22''"
  "hslToHex_f 0 (8106479329266893 / 18014398509481984)
       (5674535530486825 / 18014398509481984) 4 = ''22''"
  by code_simp+

theorem hslToHex_0_70_45: "hslToHex 0 70 45 = ''#c32222''"
  unfolding hslToHex_def Let_def hslToHex_example_sla hslToHex_example_f by simp

text \<open>
  C8. \<^verbatim>\<open>darken("#c32222", 0.3)\<close> is exactly \<^verbatim>\<open>#891818\<close>. The literal \<^verbatim>\<open>0.3\<close> is the
  binary64 value \<open>fl (3/10)\<close>; the red channel \<open>0xc3 = 195\<close> times the rounded \<open>1 - 0.3\<close> is,
  after the rounding of the product, exactly the half-way value \<open>136.5\<close>, which
  \<^verbatim>\<open>Math.round\<close> takes up to \<open>137 = 0x89\<close>; green and blue, \<open>0x22 = 34\<close>, go to \<open>24 = 0x18\<close>.
\<close>

theorem darken_c32222:
  "darken ''#c32222'' (fl (3 / 10)) = ''#891818''
   \<and> fl (195 * fl (1 - fl (3 / 10))) = 273 / 2
   \<and> darkenChannel (Some 195) (fl (3 / 10)) = Some 137
   \<and> darkenChannel (Some 34) (fl (3 / 10)) = Some 24"
  by code_simp

lemma hexValue_not_space: "hexValue c = Some v \<Longrightarrow> \<not> isWhiteSpace c"
  by (auto simp add: hexValue_def isWhiteSpace_def Let_def split: if_splits)

lemma hexValue_special:
  "hexValue CHR ''-'' = None" "hexValue CHR ''+'' = None"
  "hexValue CHR ''x'' = None" "hexValue CHR ''X'' = None"
  by (simp_all add: hexValue_def)

lemma hexValue_not_special:
  assumes "hexValue c = Some v"
  shows "c \<noteq> CHR ''-''" "c \<noteq> CHR ''+''" "c \<noteq> CHR ''x''" "c \<noteq> CHR ''X''"
  using assms hexValue_special by auto

lemma parseInt16_pair:
  assumes "hexValue a = Some x" and "hexValue b = Some y"
  shows "parseInt16 [a, b] = Some (int (16 * x + y))"
proof -
  have da: "isHexDigit a" and db: "isHexDigit b"
    using assms by (simp_all add: isHexDigit_def)
  have "dropWhile isWhiteSpace [a, b] = [a, b]"
    using hexValue_not_space[OF assms(1)] by simp
  moreover have "takeWhile isHexDigit [a, b] = [a, b]"
    using da db by simp
  moreover have "hexNumber [a, b] = 16 * x + y"
    using assms by (simp add: hexNumber_def)
  ultimately show ?thesis
    using hexValue_not_special[OF assms(1)] hexValue_not_special[OF assms(2)]
    by (simp add: parseInt16_def Let_def)
qed

lemma channel_pairs:
  "channel 1 (h # a1 # a2 # rest1) = map_option (\<lambda>n. fl (of_int n / 255)) (parseInt16 [a1, a2])"
  "channel 3 (h # a1 # a2 # b1 # b2 # rest3)
     = map_option (\<lambda>n. fl (of_int n / 255)) (parseInt16 [b1, b2])"
  "channel 5 (h # a1 # a2 # b1 # b2 # c1 # c2 # rest)
     = map_option (\<lambda>n. fl (of_int n / 255)) (parseInt16 [c1, c2])"
  by (simp_all add: channel_def slice_def)

lemma toLinear_wcag: "toLinear pow (fl (real n / 255)) = wcag_linearized pow n"
  by (simp add: toLinear_def wcag_linearized_def Let_def)

lemma luminance_wcag:
  assumes "hexValue a1 = Some x1" "hexValue a2 = Some x2"
    and "hexValue b1 = Some y1" "hexValue b2 = Some y2"
    and "hexValue c1 = Some z1" "hexValue c2 = Some z2"
  shows "luminance pow (h # a1 # a2 # b1 # b2 # c1 # c2 # rest)
         = Some (wcag_luminance pow (16 * x1 + x2) (16 * y1 + y2) (16 * z1 + z2))"
proof -
  have r: "\<And>n::nat. real_of_int (int n) = real n" by simp
  have c: "channel 1 (h # a1 # a2 # b1 # b2 # c1 # c2 # rest) = Some (fl (real (16 * x1 + x2) / 255))"
    "channel 3 (h # a1 # a2 # b1 # b2 # c1 # c2 # rest) = Some (fl (real (16 * y1 + y2) / 255))"
    "channel 5 (h # a1 # a2 # b1 # b2 # c1 # c2 # rest) = Some (fl (real (16 * z1 + z2) / 255))"
    unfolding channel_pairs parseInt16_pair[OF assms(1,2)] parseInt16_pair[OF assms(3,4)]
      parseInt16_pair[OF assms(5,6)] option.map r
    by (rule refl)+
  show ?thesis
    unfolding luminance_def c wcag_luminance_def
    by (simp only: prod.case option.case toLinear_wcag)
qed



lemma wcag_linearized_0: "wcag_linearized pow 0 = 0"
proof -
  have "fl (real 0 / 255) \<le> fl (3928 / 100000)" by code_simp
  moreover have "fl (fl (real 0 / 255) / fl (1292 / 100)) = 0" by code_simp
  ultimately show ?thesis by (simp only: wcag_linearized_def Let_def if_True)
qed

lemma wcag_linearized_255: "wcag_linearized (powr) 255 = 1"
proof -
  have a: "(fl (real 255 / 255) \<le> fl (3928 / 100000)) = False" by code_simp
  have b: "fl (fl (fl (real 255 / 255) + fl (55 / 1000)) / fl (1055 / 1000)) = 1" by code_simp
  show ?thesis
    unfolding wcag_linearized_def Let_def a b by simp
qed

lemma wcag_black: "wcag_luminance pow 0 0 0 = 0"
  unfolding wcag_luminance_def wcag_linearized_0 by (simp add: fl_def)

lemma wcag_white: "fl (179 / 1000) < wcag_luminance (powr) 255 255 255"
  unfolding wcag_luminance_def wcag_linearized_255 by code_simp


lemma channel_slices:
  "channel 1 hex = map_option (\<lambda>n. fl (of_int n / 255)) (parseInt16 (slice 1 3 hex))"
  "channel 3 hex = map_option (\<lambda>n. fl (of_int n / 255)) (parseInt16 (slice 3 5 hex))"
  "channel 5 hex = map_option (\<lambda>n. fl (of_int n / 255)) (parseInt16 (slice 5 7 hex))"
proof -
  have e: "(1::nat) + 2 = 3" "(3::nat) + 2 = 5" "(5::nat) + 2 = 7" by simp_all
  show "channel 1 hex = map_option (\<lambda>n. fl (of_int n / 255)) (parseInt16 (slice 1 3 hex))"
    "channel 3 hex = map_option (\<lambda>n. fl (of_int n / 255)) (parseInt16 (slice 3 5 hex))"
    "channel 5 hex = map_option (\<lambda>n. fl (of_int n / 255)) (parseInt16 (slice 5 7 hex))"
    unfolding channel_def e by (rule refl)+
qed

lemma contrastForeground_unparsed:
  assumes "parseInt16 (slice 1 3 hex) = None \<or> parseInt16 (slice 3 5 hex) = None
           \<or> parseInt16 (slice 5 7 hex) = None"
  shows "contrastForeground pow hex = ''#ffffff''"
proof -
  from assms have "channel 1 hex = None \<or> channel 3 hex = None \<or> channel 5 hex = None"
    unfolding channel_slices by (simp only: option.map_disc_iff)
  then have "luminance pow hex = None"
    unfolding luminance_def by (auto split: option.splits)
  then show ?thesis by (simp add: contrastForeground_def)
qed

text \<open>
  C2. For every input string (and every host \<open>pow\<close>), \<^verbatim>\<open>contrastForeground\<close> returns
  \<^verbatim>\<open>#000000\<close> or \<^verbatim>\<open>#ffffff\<close> and nothing else. For a color, that is a string whose
  characters 1 to 6 are hexadecimal digits (of either case; the first character and anything
  after the sixth digit are not looked at), it returns black exactly when the WCAG relative
  luminance of the three channel values is strictly greater than the literal \<^verbatim>\<open>0.179\<close>, and
  white exactly when it is less or equal. A string with a channel that does not parse gives
  white, the comparison with \<^verbatim>\<open>NaN\<close> being false.
\<close>

theorem contrastForeground_wcag:
  "(contrastForeground pow hex = ''#000000'' \<or> contrastForeground pow hex = ''#ffffff'')
   \<and> (hexValue a1 = Some x1 \<and> hexValue a2 = Some x2 \<and> hexValue b1 = Some y1
        \<and> hexValue b2 = Some y2 \<and> hexValue c1 = Some z1 \<and> hexValue c2 = Some z2 \<longrightarrow>
        (contrastForeground pow (h # a1 # a2 # b1 # b2 # c1 # c2 # rest) = ''#000000''
           \<longleftrightarrow> fl (179 / 1000)
                 < wcag_luminance pow (16 * x1 + x2) (16 * y1 + y2) (16 * z1 + z2))
        \<and> (contrastForeground pow (h # a1 # a2 # b1 # b2 # c1 # c2 # rest) = ''#ffffff''
           \<longleftrightarrow> wcag_luminance pow (16 * x1 + x2) (16 * y1 + y2) (16 * z1 + z2)
                 \<le> fl (179 / 1000)))
   \<and> (parseInt16 (slice 1 3 hex) = None \<or> parseInt16 (slice 3 5 hex) = None
        \<or> parseInt16 (slice 5 7 hex) = None \<longrightarrow>
        contrastForeground pow hex = ''#ffffff'')"
proof (intro conjI impI)
  show "contrastForeground pow hex = ''#000000'' \<or> contrastForeground pow hex = ''#ffffff''"
    by (cases "luminance pow hex") (simp_all add: contrastForeground_def)
next
  assume "parseInt16 (slice 1 3 hex) = None \<or> parseInt16 (slice 3 5 hex) = None
        \<or> parseInt16 (slice 5 7 hex) = None"
  then show "contrastForeground pow hex = ''#ffffff''"
    by (rule contrastForeground_unparsed)
next
  assume d: "hexValue a1 = Some x1 \<and> hexValue a2 = Some x2 \<and> hexValue b1 = Some y1
        \<and> hexValue b2 = Some y2 \<and> hexValue c1 = Some z1 \<and> hexValue c2 = Some z2"
  then have l: "luminance pow (h # a1 # a2 # b1 # b2 # c1 # c2 # rest)
      = Some (wcag_luminance pow (16 * x1 + x2) (16 * y1 + y2) (16 * z1 + z2))"
    by (intro luminance_wcag) simp_all
  show "contrastForeground pow (h # a1 # a2 # b1 # b2 # c1 # c2 # rest) = ''#000000''
           \<longleftrightarrow> fl (179 / 1000)
                 < wcag_luminance pow (16 * x1 + x2) (16 * y1 + y2) (16 * z1 + z2)"
    unfolding contrastForeground_def l by simp
  show "contrastForeground pow (h # a1 # a2 # b1 # b2 # c1 # c2 # rest) = ''#ffffff''
           \<longleftrightarrow> wcag_luminance pow (16 * x1 + x2) (16 * y1 + y2) (16 * z1 + z2)
                 \<le> fl (179 / 1000)"
    unfolding contrastForeground_def l by simp
qed

theorem contrastForeground_wcag_witness:
  "contrastForeground (powr) ''#ffffff'' = ''#000000''
   \<and> contrastForeground (powr) ''#000000'' = ''#ffffff''
   \<and> contrastForeground (powr) ''#zz0000'' = ''#ffffff''"
proof -
  have f: "hexValue CHR ''f'' = Some 15" and z: "hexValue CHR ''0'' = Some 0"
    by (simp_all add: hexValue_def)
  have "slice 1 3 ''#zz0000'' = ''zz''"
    by (simp add: slice_def)
  moreover have "parseInt16 ''zz'' = None"
    by (simp add: parseInt16_def isWhiteSpace_def isHexDigit_def hexValue_def)
  ultimately have p: "parseInt16 (slice 1 3 ''#zz0000'') = None"
    by (simp only:)
  have w: "fl (179 / 1000) < wcag_luminance (powr) (16 * 15 + 15) (16 * 15 + 15) (16 * 15 + 15)"
    using wcag_white by simp
  have b: "wcag_luminance (powr) (16 * 0 + 0) (16 * 0 + 0) (16 * 0 + 0) \<le> fl (179 / 1000)"
  proof -
    have "0 \<le> fl (179 / 1000)" by code_simp
    then show ?thesis by (simp add: wcag_black)
  qed
  note W = contrastForeground_wcag[of "(powr)" "''#zz0000'' " "CHR ''f''" 15 "CHR ''f''" 15
      "CHR ''f''" 15 "CHR ''f''" 15 "CHR ''f''" 15 "CHR ''f''" 15 "CHR ''#''" "[]"]
  note B = contrastForeground_wcag[of "(powr)" "''#zz0000'' " "CHR ''0''" 0 "CHR ''0''" 0
      "CHR ''0''" 0 "CHR ''0''" 0 "CHR ''0''" 0 "CHR ''0''" 0 "CHR ''#''" "[]"]
  from W f w have 1: "contrastForeground (powr) ''#ffffff'' = ''#000000''" by blast
  from B z b have 2: "contrastForeground (powr) ''#000000'' = ''#ffffff''" by blast
  from W p have 3: "contrastForeground (powr) ''#zz0000'' = ''#ffffff''" by blast
  from 1 2 3 show ?thesis by blast
qed

lemma contrastForeground_at_threshold:
  assumes "luminance pow hex = Some (fl (179 / 1000))"
  shows "contrastForeground pow hex = ''#ffffff''"
  using assms by (simp add: contrastForeground_def)

lemma contrastForeground_not_a_number:
  assumes "luminance pow hex = None"
  shows "contrastForeground pow hex = ''#ffffff''"
  using assms by (simp add: contrastForeground_def)

section \<open>Objects as entry lists\<close>

lemma update_fresh: "k \<notin> fst ` set al \<Longrightarrow> AList.update k v al = al @ [(k, v)]"
  by (induction al) auto

lemma spread_distinct:
  "distinct (map fst (acc @ xs)) \<Longrightarrow> spread acc xs = acc @ xs"
proof (induction xs arbitrary: acc)
  case Nil
  then show ?case by (simp add: spread_def)
next
  case (Cons x xs)
  obtain k v where x: "x = (k, v)" by (cases x)
  from Cons.prems have fresh: "k \<notin> fst ` set acc" by (auto simp: x)
  have "spread acc (x # xs) = spread (acc @ [(k, v)]) xs"
    by (simp add: spread_def x update_fresh[OF fresh])
  also have "\<dots> = (acc @ [(k, v)]) @ xs"
    using Cons.prems by (intro Cons.IH) (simp add: x)
  finally show ?case by (simp add: x)
qed

lemma spread_append: "spread acc (xs @ ys) = spread (spread acc xs) ys"
  by (simp add: spread_def)

lemma map_of_spread: "map_of (spread acc xs) = map_of acc ++ map_of (rev xs)"
proof (induction xs arbitrary: acc)
  case Nil
  then show ?case by (simp add: spread_def)
next
  case (Cons x xs)
  obtain k v where x: "x = (k, v)" by (cases x)
  have "spread acc (x # xs) = spread (AList.update k v acc) xs"
    by (simp add: spread_def x)
  then have "map_of (spread acc (x # xs)) = map_of (AList.update k v acc) ++ map_of (rev xs)"
    by (simp only: Cons.IH)
  also have "\<dots> = map_of acc ++ map_of (rev (x # xs))"
    by (rule ext) (auto simp: map_add_def update_conv' x split: option.splits)
  finally show ?case .
qed

lemma spread_distinct_keys: "distinct (map fst acc) \<Longrightarrow> distinct (map fst (spread acc xs))"
proof (induction xs arbitrary: acc)
  case Nil
  then show ?case by (simp add: spread_def)
next
  case (Cons x xs)
  obtain k v where x: "x = (k, v)" by (cases x)
  have "spread acc (x # xs) = spread (AList.update k v acc) xs"
    by (simp add: spread_def x)
  with Cons show ?case by (simp add: distinct_update)
qed

lemma clearColor_loop_Cons:
  "clearColor_loop acc ((k, v) # xs)
   = clearColor_loop (if k \<in> set MANAGED_KEYS \<or> k = ''__proto__'' then acc
                      else AList.update k v acc) xs"
  by (simp add: clearColor_loop_def assign_def)

lemma clearColor_loop_keys:
  "fst ` set (clearColor_loop acc xs)
   \<subseteq> fst ` set acc \<union> (fst ` set xs - set MANAGED_KEYS - {''__proto__''})"
proof (induction xs arbitrary: acc)
  case Nil
  then show ?case by (simp add: clearColor_loop_def)
next
  case (Cons x xs)
  obtain k v where x: "x = (k, v)" by (cases x)
  show ?case
  proof (cases "k \<in> set MANAGED_KEYS \<or> k = ''__proto__''")
    case True
    then have "clearColor_loop acc (x # xs) = clearColor_loop acc xs"
      unfolding x clearColor_loop_Cons by simp
    with Cons.IH[of acc] show ?thesis by auto
  next
    case False
    then have "clearColor_loop acc (x # xs) = clearColor_loop (AList.update k v acc) xs"
      unfolding x clearColor_loop_Cons by simp
    with Cons.IH[of "AList.update k v acc"] False show ?thesis
      by (auto simp: x dom_update image_iff)
  qed
qed

lemma clearColor_loop_distinct:
  "distinct (map fst (acc @ xs)) \<Longrightarrow>
   clearColor_loop acc xs
   = acc @ filter (\<lambda>(k, v). k \<notin> set MANAGED_KEYS \<and> k \<noteq> ''__proto__'') xs"
proof (induction xs arbitrary: acc)
  case Nil
  then show ?case by (simp add: clearColor_loop_def)
next
  case (Cons x xs)
  obtain k v where x: "x = (k, v)" by (cases x)
  from Cons.prems have fresh: "k \<notin> fst ` set acc" by (auto simp: x)
  show ?case
  proof (cases "k \<in> set MANAGED_KEYS \<or> k = ''__proto__''")
    case True
    then have "clearColor_loop acc (x # xs) = clearColor_loop acc xs"
      unfolding x clearColor_loop_Cons by simp
    moreover have "distinct (map fst (acc @ xs))" using Cons.prems by simp
    ultimately show ?thesis using True by (auto simp add: Cons.IH x)
  next
    case False
    then have "clearColor_loop acc (x # xs) = clearColor_loop (acc @ [(k, v)]) xs"
      unfolding x clearColor_loop_Cons by (simp add: update_fresh[OF fresh])
    moreover have "distinct (map fst ((acc @ [(k, v)]) @ xs))"
      using Cons.prems by (simp add: x)
    ultimately show ?thesis using False by (simp add: Cons.IH x)
  qed
qed

lemma map_of_filter_keys:
  "map_of (filter (\<lambda>(k, v). P k) xs) k = (if P k then map_of xs k else None)"
  by (induction xs) auto

lemma clearColor_result:
  "clearColor s =
     (let cleaned = clearColor_loop [] (blobEntries s);
          target = (if cleaned = [] then None else Some cleaned)
      in s\<lparr>colorCustomizations := target,
           effects := effects s @ [ConfigGet, ConfigUpdate target]\<rparr>)"
  by (simp add: clearColor_def config_get_def config_update_def record_effect_def
      blobEntries_def Let_def)

lemma blobEntries_clearColor:
  "blobEntries (clearColor s) = clearColor_loop [] (blobEntries s)"
proof -
  define cleaned where "cleaned = clearColor_loop [] (blobEntries s)"
  have "clearColor s = s\<lparr>colorCustomizations := (if cleaned = [] then None else Some cleaned),
           effects := effects s @ [ConfigGet, ConfigUpdate (if cleaned = [] then None else Some cleaned)]\<rparr>"
    unfolding cleaned_def clearColor_result Let_def ..
  then have "blobEntries (clearColor s) = cleaned"
    by (cases "cleaned = []") (simp_all add: blobEntries_def)
  then show ?thesis by (simp only: cleaned_def)
qed

lemma clearColor_no_managed:
  assumes "k \<in> set MANAGED_KEYS"
  shows "blobLookup (clearColor s) k = None"
proof -
  have "k \<notin> fst ` set (clearColor_loop [] (blobEntries s))"
    using clearColor_loop_keys[of "[]" "blobEntries s"] assms by auto
  then show ?thesis
    by (simp only: blobLookup_def blobEntries_clearColor map_of_eq_None_iff not_False_eq_True)
qed


lemma clearColor_others:
  assumes "distinct (map fst (blobEntries s))"
    and "k \<notin> set MANAGED_KEYS" and "k \<noteq> ''__proto__''"
  shows "blobLookup (clearColor s) k = blobLookup s k"
proof -
  have "clearColor_loop [] (blobEntries s)
        = filter (\<lambda>(k, v). k \<notin> set MANAGED_KEYS \<and> k \<noteq> ''__proto__'') (blobEntries s)"
    using clearColor_loop_distinct[of "[]" "blobEntries s"] assms(1) by simp
  then have "blobLookup (clearColor s) k
        = map_of (filter (\<lambda>(k, v). k \<notin> set MANAGED_KEYS \<and> k \<noteq> ''__proto__'')
            (blobEntries s)) k"
    by (simp only: blobLookup_def blobEntries_clearColor)
  also have "\<dots> = map_of (blobEntries s) k"
    using assms(2,3)
      map_of_filter_keys[of "\<lambda>k. k \<notin> set MANAGED_KEYS \<and> k \<noteq> ''__proto__''" "blobEntries s" k]
    by simp
  finally show ?thesis by (simp only: blobLookup_def)
qed

lemma clearColor_effects:
  "effects (clearColor s) = effects s @ [ConfigGet, ConfigUpdate (colorCustomizations (clearColor s))]"
  by (simp add: clearColor_result Let_def)

lemma clearColor_unset:
  assumes "\<forall>k. k \<notin> set MANAGED_KEYS \<and> k \<noteq> ''__proto__'' \<longrightarrow> blobLookup s k = None"
  shows "colorCustomizations (clearColor s) = None"
proof -
  define cleaned where "cleaned = clearColor_loop [] (blobEntries s)"
  have "cleaned = []"
  proof (cases cleaned)
    case Nil
    then show ?thesis .
  next
    case (Cons p ps)
    obtain k v where p: "p = (k, v)" by (cases p)
    have "k \<in> fst ` set cleaned" by (simp add: Cons p)
    with clearColor_loop_keys[of "[]" "blobEntries s"]
    have k: "k \<in> fst ` set (blobEntries s)"
      and nm: "k \<notin> set MANAGED_KEYS \<and> k \<noteq> ''__proto__''"
      unfolding cleaned_def by auto
    from k have "map_of (blobEntries s) k \<noteq> None"
      by (simp only: map_of_eq_None_iff not_not)
    moreover from assms nm have "map_of (blobEntries s) k = None"
      unfolding blobLookup_def by blast
    ultimately have False by contradiction
    then show ?thesis ..
  qed
  moreover have "colorCustomizations (clearColor s) = (if cleaned = [] then None else Some cleaned)"
    unfolding cleaned_def clearColor_result Let_def by simp
  ultimately show ?thesis by simp
qed

lemma clearColor_loop_distinct_keys:
  "distinct (map fst acc) \<Longrightarrow> distinct (map fst (clearColor_loop acc xs))"
proof (induction xs arbitrary: acc)
  case Nil
  then show ?case by (simp add: clearColor_loop_def)
next
  case (Cons x xs)
  obtain k v where x: "x = (k, v)" by (cases x)
  from Cons show ?case
    unfolding x clearColor_loop_Cons by (simp add: distinct_update)
qed

lemma clearColor_keys_distinct: "distinct (map fst (blobEntries (clearColor s)))"
  unfolding blobEntries_clearColor by (rule clearColor_loop_distinct_keys) simp

text \<open>
  What \<^verbatim>\<open>clearColor\<close> does for every blob: no managed key is left, every other key but
  \<^verbatim>\<open>__proto__\<close> keeps its value, and when no such key is left the blob is unset, never
  written as an empty object. It makes one read and one write of the blob and does not touch
  the store.
\<close>

lemma clearColor_frame:
  assumes "distinct (map fst (blobEntries s))"
  shows "(\<forall>k \<in> set MANAGED_KEYS. blobLookup (clearColor s) k = None)
       \<and> (\<forall>k. k \<notin> set MANAGED_KEYS \<and> k \<noteq> ''__proto__'' \<longrightarrow>
             blobLookup (clearColor s) k = blobLookup s k)
       \<and> ((\<forall>k. k \<notin> set MANAGED_KEYS \<and> k \<noteq> ''__proto__'' \<longrightarrow> blobLookup s k = None) \<longrightarrow>
            colorCustomizations (clearColor s) = None)
       \<and> colorCustomizations (clearColor s) \<noteq> Some []
       \<and> effects (clearColor s)
           = effects s @ [ConfigGet, ConfigUpdate (colorCustomizations (clearColor s))]
       \<and> length MANAGED_KEYS = 6
       \<and> globalState (clearColor s) = globalState s"
proof (intro conjI ballI allI impI)
  show "colorCustomizations (clearColor s) \<noteq> Some []"
    by (simp add: clearColor_result Let_def)
  show "length MANAGED_KEYS = 6"
    by (simp add: MANAGED_KEYS_def)
  show "globalState (clearColor s) = globalState s"
    by (simp add: clearColor_result Let_def)
  show "effects (clearColor s)
           = effects s @ [ConfigGet, ConfigUpdate (colorCustomizations (clearColor s))]"
    by (rule clearColor_effects)
next
  fix k assume "k \<in> set MANAGED_KEYS"
  then show "blobLookup (clearColor s) k = None" by (rule clearColor_no_managed)
next
  fix k assume "k \<notin> set MANAGED_KEYS \<and> k \<noteq> ''__proto__''"
  with assms show "blobLookup (clearColor s) k = blobLookup s k"
    using clearColor_others by blast
next
  assume "\<forall>k. k \<notin> set MANAGED_KEYS \<and> k \<noteq> ''__proto__'' \<longrightarrow> blobLookup s k = None"
  then show "colorCustomizations (clearColor s) = None" by (rule clearColor_unset)
qed

section \<open>Applying a palette\<close>

lemma applyColor_result:
  "applyColor pow color s =
     s\<lparr>colorCustomizations := Some (spread [] (blobEntries s @ palette pow color)),
       effects := effects s @ [ConfigGet,
          ConfigUpdate (Some (spread [] (blobEntries s @ palette pow color)))]\<rparr>"
  unfolding applyColor_def config_get_def config_update_def record_effect_def blobEntries_def
    Let_def by simp

lemma blobEntries_applyColor:
  "blobEntries (applyColor pow color s) = spread [] (blobEntries s @ palette pow color)"
proof -
  define updated where "updated = spread [] (blobEntries s @ palette pow color)"
  have "applyColor pow color s = s\<lparr>colorCustomizations := Some updated,
       effects := effects s @ [ConfigGet, ConfigUpdate (Some updated)]\<rparr>"
    unfolding updated_def by (rule applyColor_result)
  then have "blobEntries (applyColor pow color s) = updated"
    by (simp add: blobEntries_def)
  then show ?thesis by (simp only: updated_def)
qed

lemma applyColor_keys_distinct:
  "distinct (map fst (blobEntries (applyColor pow color s)))"
  unfolding blobEntries_applyColor by (rule spread_distinct_keys) simp

lemma palette_keys: "map fst (palette pow color) = MANAGED_KEYS"
  by (simp add: palette_def MANAGED_KEYS_def Let_def)

lemma blobLookup_applyColor:
  assumes "distinct (map fst (blobEntries s))"
  shows "blobLookup (applyColor pow color s) k
         = (case map_of (rev (palette pow color)) k of
              None \<Rightarrow> blobLookup s k | Some v \<Rightarrow> Some v)"
proof -
  have "spread [] (blobEntries s @ palette pow color)
        = spread (spread [] (blobEntries s)) (palette pow color)"
    by (rule spread_append)
  also have "spread [] (blobEntries s) = blobEntries s"
    using spread_distinct[of "[]" "blobEntries s"] assms by simp
  finally have "map_of (blobEntries (applyColor pow color s))
        = map_of (blobEntries s) ++ map_of (rev (palette pow color))"
    by (simp only: blobEntries_applyColor map_of_spread)
  then show ?thesis
    by (simp only: blobLookup_def map_add_def)
qed

lemma palette_lookup:
  "map_of (rev (palette pow color)) ''titleBar.activeBackground'' = Some (JStr color)"
  "map_of (rev (palette pow color)) ''titleBar.activeForeground''
     = Some (JStr (contrastForeground pow color))"
  "map_of (rev (palette pow color)) ''titleBar.inactiveBackground''
     = Some (JStr (darken color (fl (3 / 10))))"
  "map_of (rev (palette pow color)) ''titleBar.inactiveForeground''
     = Some (JStr (contrastForeground pow (darken color (fl (3 / 10)))))"
  "map_of (rev (palette pow color)) ''statusBar.background'' = Some (JStr color)"
  "map_of (rev (palette pow color)) ''statusBar.foreground''
     = Some (JStr (contrastForeground pow color))"
  by (simp_all add: palette_def Let_def)

lemma palette_lookup_other:
  assumes "k \<notin> set MANAGED_KEYS"
  shows "map_of (rev (palette pow color)) k = None"
proof -
  have "k \<notin> fst ` set (rev (palette pow color))"
    using assms palette_keys[of pow color] by (metis set_map set_rev)
  then show ?thesis by (simp only: map_of_eq_None_iff not_False_eq_True)
qed

text \<open>
  C5. For every prior blob, \<^verbatim>\<open>applyColor\<close> leaves a blob in which the six managed keys
  hold the palette of the color (the color, its contrast ink, the color darkened by 0.3 and the
  ink of that, and the two status bar keys repeating the first two), and in which every other
  key has the value it had before; so \<^verbatim>\<open>foo.bar = 1\<close> stays \<^verbatim>\<open>foo.bar = 1\<close>.
\<close>

theorem applyColor_merge:
  assumes "distinct (map fst (blobEntries s))"
  shows "blobLookup (applyColor pow color s) ''titleBar.activeBackground'' = Some (JStr color)
       \<and> blobLookup (applyColor pow color s) ''titleBar.activeForeground''
           = Some (JStr (contrastForeground pow color))
       \<and> blobLookup (applyColor pow color s) ''titleBar.inactiveBackground''
           = Some (JStr (darken color (fl (3 / 10))))
       \<and> blobLookup (applyColor pow color s) ''titleBar.inactiveForeground''
           = Some (JStr (contrastForeground pow (darken color (fl (3 / 10)))))
       \<and> blobLookup (applyColor pow color s) ''statusBar.background'' = Some (JStr color)
       \<and> blobLookup (applyColor pow color s) ''statusBar.foreground''
           = Some (JStr (contrastForeground pow color))
       \<and> (\<forall>k. k \<notin> set MANAGED_KEYS \<longrightarrow>
             blobLookup (applyColor pow color s) k = blobLookup s k)
       \<and> globalState (applyColor pow color s) = globalState s"
proof (intro conjI allI impI)
  show "globalState (applyColor pow color s) = globalState s"
    by (simp add: applyColor_result)
next
  fix k assume "k \<notin> set MANAGED_KEYS"
  then have "map_of (rev (palette pow color)) k = None"
    by (rule palette_lookup_other)
  then show "blobLookup (applyColor pow color s) k = blobLookup s k"
    by (simp only: blobLookup_applyColor[OF assms] option.case)
qed (simp_all only: blobLookup_applyColor[OF assms] palette_lookup option.case)

theorem applyColor_merge_witness:
  "blobLookup (applyColor (powr) ''#c32222'' (host0\<lparr>colorCustomizations := Some [(''foo.bar'', JNum 1)]\<rparr>))
     ''foo.bar'' = Some (JNum 1)
   \<and> blobLookup (applyColor (powr) ''#c32222'' (host0\<lparr>colorCustomizations := Some [(''foo.bar'', JNum 1)]\<rparr>))
     ''titleBar.activeBackground'' = Some (JStr ''#c32222'')
   \<and> blobLookup (applyColor (powr) ''#c32222'' (host0\<lparr>colorCustomizations := Some [(''foo.bar'', JNum 1)]\<rparr>))
     ''titleBar.inactiveBackground'' = Some (JStr ''#891818'')"
proof -
  let ?s = "host0\<lparr>colorCustomizations := Some [(''foo.bar'', JNum 1)]\<rparr>"
  have n: "''foo.bar'' \<notin> set MANAGED_KEYS"
    by (simp add: MANAGED_KEYS_def)
  have es: "blobEntries ?s = [(''foo.bar'', JNum 1)]"
    by (simp add: blobEntries_def)
  have ds: "distinct (map fst (blobEntries ?s))"
    unfolding es by simp
  have foo: "blobLookup ?s ''foo.bar'' = Some (JNum 1)"
    unfolding blobLookup_def es by simp
  have dk: "darken ''#c32222'' (fl (3 / 10)) = ''#891818''"
    by code_simp
  note A = applyColor_merge[OF ds, of "(powr)" "''#c32222''"]
  from A n foo have 1: "blobLookup (applyColor (powr) ''#c32222'' ?s) ''foo.bar'' = Some (JNum 1)"
    by metis
  from A dk show ?thesis using 1 by metis
qed

section \<open>A blob with the key \<^verbatim>\<open>__proto__\<close>\<close>


section \<open>Branch changes\<close>

lemma handleBranchChange_default:
  assumes "branchName repo = Some b" and "isDefaultBranch b s"
  shows "handleBranchChange pow rnd repo s = clearColor s"
  using assms by (simp add: handleBranchChange_def)

lemma handleBranchChange_absent:
  assumes "branchName repo = None \<or> branchName repo = Some []"
  shows "handleBranchChange pow rnd repo s = clearColor s"
  using assms by (auto simp add: handleBranchChange_def)

lemma clearColor_globalState: "globalState (clearColor s) = globalState s"
  by (simp add: clearColor_result Let_def)

lemma applyColor_effects:
  "effects (applyColor pow color s)
   = effects s @ [ConfigGet, ConfigUpdate (colorCustomizations (applyColor pow color s))]"
  by (simp add: applyColor_result)

text \<open>
  On any other named branch the handler starts with a look at the store.
\<close>

lemma handleBranchChange_named:
  assumes "branchName repo = Some bn" and "bn \<noteq> []" and "\<not> isDefaultBranch bn s"
  shows "\<exists>rest. effects (handleBranchChange pow rnd repo s)
           = effects s @ StoreGet (colorKey (rootUri repo) bn) # rest"
proof -
  define key where "key = colorKey (rootUri repo) bn"
  define s1 where "s1 = record_effect (StoreGet key) s"
  define generated where "generated = generateRandomColor rnd"
  have e1: "effects s1 = effects s @ [StoreGet key]"
    by (simp add: s1_def record_effect_def)
  have h: "handleBranchChange pow rnd repo s
      = (case (case globalState s key of
                 None \<Rightarrow> (generated, memento_update key (Some generated) s1)
               | Some c \<Rightarrow> if c = [] then (generated, memento_update key (Some generated) s1)
                           else (c, s1)) of
           (color, s2) \<Rightarrow> applyColor pow color s2)"
    unfolding key_def s1_def generated_def using assms
    by (simp add: handleBranchChange_def memento_get_def Let_def)
  have e2: "effects (memento_update key (Some generated) s1)
      = effects s @ [StoreGet key, StoreUpdate key (Some generated)]"
    by (simp add: memento_update_def record_effect_def e1)
  have "\<exists>rest. effects (handleBranchChange pow rnd repo s) = effects s @ StoreGet key # rest"
  proof (cases "globalState s key")
    case None
    then have "handleBranchChange pow rnd repo s
        = applyColor pow generated (memento_update key (Some generated) s1)"
      by (simp add: h)
    then show ?thesis
      by (simp add: applyColor_effects e2)
  next
    case (Some c)
    show ?thesis
    proof (cases "c = []")
      case True
      with Some have "handleBranchChange pow rnd repo s
          = applyColor pow generated (memento_update key (Some generated) s1)"
        by (simp add: h)
      then show ?thesis
        by (simp add: applyColor_effects e2)
    next
      case False
      with Some have "handleBranchChange pow rnd repo s = applyColor pow c s1"
        by (simp add: h)
      then show ?thesis
        by (simp add: applyColor_effects e1)
    qed
  qed
  then show ?thesis by (simp only: key_def)
qed

text \<open>
  C1. When the current branch is one of the default branches (the setting
  \<^verbatim>\<open>worktreeRainbow.defaultBranches\<close>, \<^verbatim>\<open>main\<close> and \<^verbatim>\<open>master\<close> when it is unset),
  \<^verbatim>\<open>handleBranchChange\<close> neither reads nor writes the store: the only calls it makes are
  one read and one write of the blob. Afterwards no managed key is in the blob, whatever the
  blob held before.
\<close>

theorem default_branch_exempt:
  assumes "branchName repo = Some b"
    and "b \<in> set (case defaultBranches s of None \<Rightarrow> [''main'', ''master''] | Some d \<Rightarrow> d)"
  shows "globalState (handleBranchChange pow rnd repo s) = globalState s
       \<and> effects (handleBranchChange pow rnd repo s)
           = effects s @ [ConfigGet,
               ConfigUpdate (colorCustomizations (handleBranchChange pow rnd repo s))]
       \<and> (\<forall>k \<in> set MANAGED_KEYS. blobLookup (handleBranchChange pow rnd repo s) k = None)"
proof -
  from assms(2) have "isDefaultBranch b s"
    by (simp add: isDefaultBranch_def)
  with assms(1) have eq: "handleBranchChange pow rnd repo s = clearColor s"
    by (rule handleBranchChange_default)
  show ?thesis
    unfolding eq
  proof (intro conjI ballI)
    show "globalState (clearColor s) = globalState s"
      by (rule clearColor_globalState)
    show "effects (clearColor s)
          = effects s @ [ConfigGet, ConfigUpdate (colorCustomizations (clearColor s))]"
      by (rule clearColor_effects)
  next
    fix k assume "k \<in> set MANAGED_KEYS"
    then show "blobLookup (clearColor s) k = None" by (rule clearColor_no_managed)
  qed
qed

theorem default_branch_exempt_witness:
  "blobLookup (handleBranchChange (powr) (0, 0, 0) (repoOn (Some ''main''))
      (host0\<lparr>colorCustomizations := Some colored\<rparr>)) ''titleBar.activeBackground'' = None
   \<and> globalState (handleBranchChange (powr) (0, 0, 0) (repoOn (Some ''main''))
      (host0\<lparr>colorCustomizations := Some colored\<rparr>)) = Map.empty"
proof -
  let ?s = "host0\<lparr>colorCustomizations := Some colored\<rparr>"
  have b: "branchName (repoOn (Some ''main'')) = Some ''main''"
    by (simp add: branchName_def repoOn_def)
  have d: "''main'' \<in> set (case defaultBranches ?s of None \<Rightarrow> [''main'', ''master'']
                             | Some d \<Rightarrow> d)"
    by (simp add: host0_def)
  have m: "''titleBar.activeBackground'' \<in> set MANAGED_KEYS"
    by (simp add: MANAGED_KEYS_def)
  have g: "globalState ?s = Map.empty"
    by (simp add: host0_def)
  from default_branch_exempt[OF b d, of "(powr)" "(0, 0, 0)"] m g
  show ?thesis by metis
qed

section \<open>Commands without a repository\<close>

lemma resolveRepository_None:
  "resolveRepository git s = None \<longleftrightarrow> repositories git = []"
proof (cases "repositories git")
  case Nil
  then show ?thesis
    by (simp add: resolveRepository_def split: option.splits)
next
  case (Cons r rs)
  then show ?thesis
    by (simp add: resolveRepository_def Let_def split: option.splits)
qed

lemma reroll_no_repository:
  assumes "resolveRepository git s = None"
  shows "reroll pow rnd git s
         = s\<lparr>effects := effects s @ [ShowWarning ''Worktree Rainbow: No git repository found.'']\<rparr>"
  using assms by (simp add: reroll_def showWarningMessage_def record_effect_def)

lemma clear_no_repository:
  assumes "resolveRepository git s = None"
  shows "clear git s = showInformationMessage ''Worktree Rainbow: Color cleared.'' (clearColor s)"
  using assms by (simp add: clear_def)

text \<open>
  C3, as the code has it. When no repository can be resolved (\<^verbatim>\<open>git.repositories\<close> is
  empty), Reroll shows the warning "No git repository found." and does nothing else: no store
  update, no read or write of the blob. Clear skips only the deletion of the stored color: it
  leaves the store as it is, but it still runs \<^verbatim>\<open>clearColor\<close>, which writes the blob, and
  then shows the information message "Color cleared.", not a warning.
\<close>

theorem no_repository_reroll_warns_clear_clears:
  assumes "resolveRepository git s = None"
  shows "reroll pow rnd git s
           = s\<lparr>effects := effects s @ [ShowWarning ''Worktree Rainbow: No git repository found.'']\<rparr>
       \<and> globalState (clear git s) = globalState s
       \<and> colorCustomizations (clear git s) = colorCustomizations (clearColor s)
       \<and> effects (clear git s)
           = effects s @ [ConfigGet, ConfigUpdate (colorCustomizations (clearColor s)),
                          ShowInformation ''Worktree Rainbow: Color cleared.'']"
proof -
  have c: "clear git s = showInformationMessage ''Worktree Rainbow: Color cleared.'' (clearColor s)"
    using assms by (rule clear_no_repository)
  have "globalState (clear git s) = globalState s"
    unfolding c by (simp add: showInformationMessage_def record_effect_def clearColor_globalState)
  moreover have "colorCustomizations (clear git s) = colorCustomizations (clearColor s)"
    unfolding c by (simp add: showInformationMessage_def record_effect_def)
  moreover have "effects (clear git s)
           = effects s @ [ConfigGet, ConfigUpdate (colorCustomizations (clearColor s)),
                          ShowInformation ''Worktree Rainbow: Color cleared.'']"
    unfolding c by (simp add: showInformationMessage_def record_effect_def clearColor_effects)
  ultimately show ?thesis
    using reroll_no_repository[OF assms] by blast
qed

theorem no_repository_reroll_warns_clear_clears_witness:
  "reroll (powr) (0, 0, 0) \<lparr>repositories = []\<rparr> host0
     = host0\<lparr>effects := [ShowWarning ''Worktree Rainbow: No git repository found.'']\<rparr>
   \<and> globalState (clear \<lparr>repositories = []\<rparr> host0) = Map.empty"
proof -
  have r: "resolveRepository \<lparr>repositories = []\<rparr> host0 = None"
    by (simp add: resolveRepository_def host0_def)
  have e: "effects host0 = []" and g: "globalState host0 = Map.empty"
    by (simp_all add: host0_def)
  from no_repository_reroll_warns_clear_clears[OF r, of "(powr)" "(0, 0, 0)"]
  show ?thesis unfolding e g by simp
qed

text \<open>
  C3 as stated fails for Clear. On a blob that holds a managed key and with no repository
  open, Clear writes the blob (it becomes unset) and reports success with an information
  message; no warning is shown.
\<close>

theorem clear_without_repository_counterexample:
  "resolveRepository \<lparr>repositories = []\<rparr> (host0\<lparr>colorCustomizations := Some colored\<rparr>) = None
   \<and> colorCustomizations (host0\<lparr>colorCustomizations := Some colored\<rparr>) = Some colored
   \<and> colorCustomizations (clear \<lparr>repositories = []\<rparr> (host0\<lparr>colorCustomizations := Some colored\<rparr>))
       = None
   \<and> effects (clear \<lparr>repositories = []\<rparr> (host0\<lparr>colorCustomizations := Some colored\<rparr>))
       = [ConfigGet, ConfigUpdate None, ShowInformation ''Worktree Rainbow: Color cleared.'']"
proof -
  let ?s = "host0\<lparr>colorCustomizations := Some colored\<rparr>"
  have r: "resolveRepository \<lparr>repositories = []\<rparr> ?s = None"
    by (simp add: resolveRepository_def host0_def)
  have c: "clear \<lparr>repositories = []\<rparr> ?s
           = showInformationMessage ''Worktree Rainbow: Color cleared.'' (clearColor ?s)"
    using r by (rule clear_no_repository)
  have l: "clearColor_loop [] colored = []"
    by (simp add: clearColor_loop_def colored_def MANAGED_KEYS_def)
  have es: "blobEntries ?s = colored"
    by (simp add: blobEntries_def)
  have cc: "clearColor ?s = ?s\<lparr>colorCustomizations := None,
              effects := effects ?s @ [ConfigGet, ConfigUpdate None]\<rparr>"
    unfolding clearColor_result es l Let_def by simp
  show ?thesis
    unfolding c cc using r
    by (simp add: showInformationMessage_def record_effect_def host0_def)
qed

section \<open>The empty branch name\<close>

lemma enqueue_same:
  assumes "branchName r = lastBranch w"
  shows "enqueue r w = w"
  using assms by (simp add: enqueue_def)

lemma enqueue_differs:
  assumes "branchName r \<noteq> lastBranch w"
  shows "enqueue r w = w\<lparr>lastBranch := branchName r, pending := pending w @ [branchName r]\<rparr>"
  using assms by (simp add: enqueue_def Let_def)

text \<open>
  C9, as the code has it. The detached state is the absent name \<^verbatim>\<open>undefined\<close>, a value
  different from every string, and the change filter of the watcher (\<^verbatim>\<open>!==\<close>) tells it
  from the empty string: after nothing or a detached state, a branch named by the empty string
  is enqueued, a detached state is not. The handler, however, tests \<^verbatim>\<open>!branchName\<close>, which
  holds of both, so a branch whose name is the empty string is handled exactly as the detached
  state: the managed keys are cleared and the store is not consulted.
\<close>

theorem empty_name_handled_as_absent:
  "(branchName r = None \<or> branchName r = Some [] \<longrightarrow>
      handleBranchChange pow rnd r s = clearColor s)
   \<and> (branchName r = Some [] \<and> lastBranch w = None \<longrightarrow>
      enqueue r w = w\<lparr>lastBranch := Some [], pending := pending w @ [Some []]\<rparr>)
   \<and> (branchName r = None \<and> lastBranch w = None \<longrightarrow> enqueue r w = w)"
proof (intro conjI impI)
  assume "branchName r = None \<or> branchName r = Some []"
  then show "handleBranchChange pow rnd r s = clearColor s"
    by (rule handleBranchChange_absent)
next
  assume a: "branchName r = Some [] \<and> lastBranch w = None"
  then have "branchName r \<noteq> lastBranch w" by simp
  from enqueue_differs[OF this] a
  show "enqueue r w = w\<lparr>lastBranch := Some [], pending := pending w @ [Some []]\<rparr>"
    by simp
next
  assume "branchName r = None \<and> lastBranch w = None"
  then have "branchName r = lastBranch w" by simp
  then show "enqueue r w = w" by (rule enqueue_same)
qed

theorem empty_name_handled_as_absent_witness:
  "handleBranchChange (powr) (0, 0, 0) (repoOn (Some [])) host0 = clearColor host0
   \<and> handleBranchChange (powr) (0, 0, 0) repoDetached host0 = clearColor host0
   \<and> enqueue (repoOn (Some [])) \<lparr>lastBranch = None, pending = []\<rparr>
       = \<lparr>lastBranch = Some [], pending = [Some []]\<rparr>
   \<and> enqueue repoDetached \<lparr>lastBranch = None, pending = []\<rparr>
       = \<lparr>lastBranch = None, pending = []\<rparr>"
proof -
  have e: "branchName (repoOn (Some [])) = Some []" and d: "branchName repoDetached = None"
    by (simp_all add: branchName_def repoOn_def repoDetached_def)
  note E = empty_name_handled_as_absent[of "repoOn (Some [])" "(powr)" "(0, 0, 0)" host0
      "\<lparr>lastBranch = None, pending = []\<rparr>"]
  note D = empty_name_handled_as_absent[of repoDetached "(powr)" "(0, 0, 0)" host0
      "\<lparr>lastBranch = None, pending = []\<rparr>"]
  from E D e d show ?thesis by simp
qed

text \<open>
  C9 as stated fails for the handler. The empty string is not a default branch, and yet on a
  branch of that name the handler does exactly what it does for a detached repository: it
  clears the blob and never looks at the store.
\<close>

theorem empty_name_counterexample:
  "branchName (repoOn (Some [])) = Some []
   \<and> isDefaultBranch [] (host0\<lparr>colorCustomizations := Some colored\<rparr>) = False
   \<and> handleBranchChange (powr) (0, 0, 0) (repoOn (Some []))
        (host0\<lparr>colorCustomizations := Some colored\<rparr>)
      = handleBranchChange (powr) (0, 0, 0) repoDetached
        (host0\<lparr>colorCustomizations := Some colored\<rparr>)
   \<and> effects (handleBranchChange (powr) (0, 0, 0) (repoOn (Some []))
        (host0\<lparr>colorCustomizations := Some colored\<rparr>))
      = [ConfigGet, ConfigUpdate None]"
proof -
  let ?s = "host0\<lparr>colorCustomizations := Some colored\<rparr>"
  have e: "branchName (repoOn (Some [])) = Some []" and d: "branchName repoDetached = None"
    by (simp_all add: branchName_def repoOn_def repoDetached_def)
  have nd: "isDefaultBranch [] ?s = False"
    by (simp add: isDefaultBranch_def host0_def)
  have he: "handleBranchChange (powr) (0, 0, 0) (repoOn (Some [])) ?s = clearColor ?s"
    using e by (simp add: handleBranchChange_def)
  have hd: "handleBranchChange (powr) (0, 0, 0) repoDetached ?s = clearColor ?s"
    using d by (simp add: handleBranchChange_def)
  have l: "clearColor_loop [] colored = []"
    by (simp add: clearColor_loop_def colored_def MANAGED_KEYS_def)
  have es: "blobEntries ?s = colored"
    by (simp add: blobEntries_def)
  have cc: "effects (clearColor ?s) = [ConfigGet, ConfigUpdate None]"
    unfolding clearColor_result es l Let_def by (simp add: host0_def)
  show ?thesis unfolding he hd cc using e nd by simp
qed

section \<open>The queue of the watcher\<close>

lemma branchName_headName: "branchName (r\<lparr>state := \<lparr>HEAD = b\<rparr>\<rparr>) = headName b"
  by (simp add: branchName_def headName_def)

lemma step_Change:
  "step pow sys (Change b) =
     sys\<lparr>watched := (watched sys)\<lparr>state := \<lparr>HEAD = b\<rparr>\<rparr>,
         watch := enqueue ((watched sys)\<lparr>state := \<lparr>HEAD = b\<rparr>\<rparr>) (watch sys)\<rparr>"
  by (simp add: step_def Let_def)

lemma step_Run_idle:
  assumes "pending (watch sys) = []"
  shows "step pow sys (Run rnd) = sys"
  using assms by (simp add: step_def)

lemma step_Run_first:
  assumes "pending (watch sys) = t # ts"
  shows "step pow sys (Run rnd) =
     sys\<lparr>watch := (watch sys)\<lparr>pending := ts\<rparr>,
         vscode := handleBranchChange pow rnd (watched sys) (vscode sys),
         finished := finished sys @ [t]\<rparr>"
  using assms by (simp add: step_def)

lemma run_Nil: "run pow sys [] = sys"
  by (simp add: run_def)

lemma run_Cons: "run pow sys (ev # evs) = run pow (step pow sys ev) evs"
  by (simp add: run_def)

text \<open>
  What the code does, for every state of the watcher: it takes \<^verbatim>\<open>lastBranch\<close> for the
  name enqueued last, also before anything was enqueued.
\<close>

lemma step_queue:
  "finished (step pow sys ev) @ pending (watch (step pow sys ev))
     = finished sys @ pending (watch sys)
       @ spec_enqueued (Last (lastBranch (watch sys))) (reported [ev])
   \<and> lastBranch (watch (step pow sys ev))
     = last (lastBranch (watch sys)
             # spec_enqueued (Last (lastBranch (watch sys))) (reported [ev]))"
proof (cases ev)
  case (Change b)
  show ?thesis
  proof (cases "headName b = lastBranch (watch sys)")
    case True
    then have "enqueue ((watched sys)\<lparr>state := \<lparr>HEAD = b\<rparr>\<rparr>) (watch sys) = watch sys"
      by (intro enqueue_same) (simp only: branchName_headName)
    with True show ?thesis by (simp add: Change step_Change)
  next
    case False
    then have ne: "branchName ((watched sys)\<lparr>state := \<lparr>HEAD = b\<rparr>\<rparr>) \<noteq> lastBranch (watch sys)"
      by (simp add: branchName_headName)
    have "enqueue ((watched sys)\<lparr>state := \<lparr>HEAD = b\<rparr>\<rparr>) (watch sys)
        = (watch sys)\<lparr>lastBranch := headName b, pending := pending (watch sys) @ [headName b]\<rparr>"
      using enqueue_differs[OF ne] by (simp add: branchName_headName)
    with False show ?thesis by (auto simp add: Change step_Change)
  qed
next
  case (Run rnd)
  show ?thesis
  proof (cases "pending (watch sys)")
    case Nil
    then show ?thesis by (simp add: Run step_Run_idle)
  next
    case (Cons t ts)
    then show ?thesis by (simp add: Run step_Run_first[OF Cons])
  qed
qed

lemma spec_enqueued_append:
  "spec_enqueued (Last l) (ms @ ns)
   = spec_enqueued (Last l) ms
     @ spec_enqueued (Last (last (l # spec_enqueued (Last l) ms))) ns"
  by (induction ms arbitrary: l) simp_all

lemma reported_Cons: "reported (ev # evs) = reported [ev] @ reported evs"
  by (cases ev) simp_all

lemma run_queue:
  "finished (run pow sys evs) @ pending (watch (run pow sys evs))
     = finished sys @ pending (watch sys)
       @ spec_enqueued (Last (lastBranch (watch sys))) (reported evs)
   \<and> lastBranch (watch (run pow sys evs))
     = last (lastBranch (watch sys)
             # spec_enqueued (Last (lastBranch (watch sys))) (reported evs))"
proof (induction evs arbitrary: sys)
  case Nil
  then show ?case by (simp add: run_Nil)
next
  case (Cons ev evs)
  let ?sys = "step pow sys ev"
  let ?l = "lastBranch (watch sys)"
  note S = step_queue[of pow sys ev]
  note I = Cons.IH[of ?sys]
  have r: "reported (ev # evs) = reported [ev] @ reported evs" by (rule reported_Cons)
  have e: "spec_enqueued (Last ?l) (reported (ev # evs))
     = spec_enqueued (Last ?l) (reported [ev])
       @ spec_enqueued (Last (lastBranch (watch ?sys))) (reported evs)"
    unfolding r spec_enqueued_append using S by simp
  have "finished (run pow sys (ev # evs)) @ pending (watch (run pow sys (ev # evs)))
      = (finished ?sys @ pending (watch ?sys))
        @ spec_enqueued (Last (lastBranch (watch ?sys))) (reported evs)"
    unfolding run_Cons using I by simp
  also have "\<dots> = finished sys @ pending (watch sys)
        @ spec_enqueued (Last ?l) (reported (ev # evs))"
    using S e by simp
  finally have 1: "finished (run pow sys (ev # evs)) @ pending (watch (run pow sys (ev # evs)))
      = finished sys @ pending (watch sys) @ spec_enqueued (Last ?l) (reported (ev # evs))" .
  have "lastBranch (watch (run pow sys (ev # evs)))
      = last (lastBranch (watch ?sys)
              # spec_enqueued (Last (lastBranch (watch ?sys))) (reported evs))"
    unfolding run_Cons using I by simp
  also have "\<dots> = last (?l # spec_enqueued (Last ?l) (reported (ev # evs)))"
    unfolding e using S by (simp add: last_append)
  finally show ?case using 1 by simp
qed

lemma register_named:
  assumes "branchName r = Some n"
  shows "watch (register r s) = \<lparr>lastBranch = Some n, pending = [Some n]\<rparr>"
  using assms by (simp add: register_def watchRepo_def enqueue_def Let_def)

lemma register_absent:
  assumes "branchName r = None"
  shows "watch (register r s) = \<lparr>lastBranch = None, pending = []\<rparr>"
  using assms by (simp add: register_def watchRepo_def enqueue_def Let_def)

text \<open>
  Against the specification. After a registration on a named branch the calls that have run,
  followed by the calls that are pending, are exactly the names that the specification
  enqueues, in its order: nothing is lost, cancelled or overtaken. After a registration in
  the detached state the code is one entry short: the specification enqueues the detached
  state first, the code never does.
\<close>

lemma run_queue_named:
  assumes "branchName r0 = Some n"
  shows "finished (run pow (register r0 s0) evs) @ pending (watch (run pow (register r0 s0) evs))
         = spec_enqueued NothingYet (branchName r0 # reported evs)"
proof -
  have w: "watch (register r0 s0) = \<lparr>lastBranch = Some n, pending = [Some n]\<rparr>"
    using assms by (rule register_named)
  have f: "finished (register r0 s0) = []" by (simp add: register_def)
  from run_queue[of pow "register r0 s0" evs]
  have "finished (run pow (register r0 s0) evs) @ pending (watch (run pow (register r0 s0) evs))
        = Some n # spec_enqueued (Last (Some n)) (reported evs)"
    by (simp add: w f)
  then show ?thesis by (simp add: assms)
qed

lemma run_queue_detached:
  assumes "branchName r0 = None"
  shows "spec_enqueued NothingYet (branchName r0 # reported evs)
         = None # (finished (run pow (register r0 s0) evs)
                   @ pending (watch (run pow (register r0 s0) evs)))"
proof -
  have w: "watch (register r0 s0) = \<lparr>lastBranch = None, pending = []\<rparr>"
    using assms by (rule register_absent)
  have f: "finished (register r0 s0) = []" by (simp add: register_def)
  from run_queue[of pow "register r0 s0" evs]
  have "finished (run pow (register r0 s0) evs) @ pending (watch (run pow (register r0 s0) evs))
        = spec_enqueued (Last None) (reported evs)"
    by (simp add: w f)
  then show ?thesis by (simp add: assms)
qed

text \<open>
  C6 at a repository that is registered in the detached state. Nothing has been enqueued, so
  a notification that reports the detached state does not repeat the name enqueued last, and
  the specification enqueues it. The code compares it with \<^verbatim>\<open>lastBranch\<close>, whose initial
  \<^verbatim>\<open>undefined\<close> is also the detached name, and drops it: after the notification and a turn
  of the event loop nothing has run and nothing is pending. From a named branch the same
  events are enqueued as the specification says, a detached state in between included.
\<close>

theorem detached_notification_dropped:
  "enqueue repoDetached \<lparr>lastBranch = None, pending = []\<rparr> = \<lparr>lastBranch = None, pending = []\<rparr>
   \<and> spec_enqueued NothingYet [branchName repoDetached] = [None]
   \<and> finished (run (powr) (register repoDetached host0) [Change None, Run (0, 0, 0)])
       @ pending (watch (run (powr) (register repoDetached host0) [Change None, Run (0, 0, 0)]))
     = []
   \<and> spec_enqueued NothingYet (branchName repoDetached # reported [Change None, Run (0, 0, 0)])
     = [None]
   \<and> finished (run (powr) (register (repoOn (Some ''feature-1'')) host0)
         [Change (Some \<lparr>name = Some ''feature-1''\<rparr>), Change None,
          Change (Some \<lparr>name = Some ''feature-2''\<rparr>)])
       @ pending (watch (run (powr) (register (repoOn (Some ''feature-1'')) host0)
         [Change (Some \<lparr>name = Some ''feature-1''\<rparr>), Change None,
          Change (Some \<lparr>name = Some ''feature-2''\<rparr>)]))
     = [Some ''feature-1'', None, Some ''feature-2'']"
proof -
  let ?evs = "[Change None, Run (0, 0, 0)]"
  let ?named = "[Change (Some \<lparr>name = Some ''feature-1''\<rparr>), Change None,
          Change (Some \<lparr>name = Some ''feature-2''\<rparr>)]"
  have d: "branchName repoDetached = None"
    by (simp add: branchName_def repoDetached_def)
  have f: "branchName (repoOn (Some ''feature-1'')) = Some ''feature-1''"
    by (simp add: branchName_def repoOn_def)
  have 1: "enqueue repoDetached \<lparr>lastBranch = None, pending = []\<rparr>
           = \<lparr>lastBranch = None, pending = []\<rparr>"
    by (rule enqueue_same) (simp add: d)
  have 2: "spec_enqueued NothingYet [branchName repoDetached] = [None]"
    by (simp add: d)
  have re: "reported ?evs = [None]"
    by (simp add: headName_def)
  have rn: "reported ?named = [Some ''feature-1'', None, Some ''feature-2'']"
    by (simp add: headName_def)
  have 4: "spec_enqueued NothingYet (branchName repoDetached # reported ?evs) = [None]"
    unfolding re d by simp
  from run_queue_detached[OF d, of ?evs "(powr)" host0]
  have 3: "finished (run (powr) (register repoDetached host0) ?evs)
       @ pending (watch (run (powr) (register repoDetached host0) ?evs)) = []"
    unfolding 4 by simp
  have sn: "spec_enqueued NothingYet (branchName (repoOn (Some ''feature-1'')) # reported ?named)
        = [Some ''feature-1'', None, Some ''feature-2'']"
    unfolding rn f by simp
  have 5: "finished (run (powr) (register (repoOn (Some ''feature-1'')) host0) ?named)
       @ pending (watch (run (powr) (register (repoOn (Some ''feature-1'')) host0) ?named))
     = [Some ''feature-1'', None, Some ''feature-2'']"
    unfolding run_queue_named[OF f] by (rule sn)
  from 1 2 3 4 5 show ?thesis by blast
qed

text \<open>
  C10 at a repository that is registered in the detached state while the blob still holds a
  color. \<^verbatim>\<open>lastBranch\<close> starts as \<^verbatim>\<open>undefined\<close>, which is also the name that
  \<^verbatim>\<open>enqueue\<close> reads from a detached \<open>HEAD\<close>, so the call of \<^verbatim>\<open>enqueue\<close> in
  \<^verbatim>\<open>watchRepo\<close> enqueues nothing, further notifications in the detached state are dropped
  as well, and the managed keys stay in the blob. A named branch is enqueued at registration,
  and so is a later change from a named branch to the detached state.
\<close>

theorem register_detached_enqueues_nothing:
  "watch (register repoDetached (host0\<lparr>colorCustomizations := Some colored\<rparr>))
     = \<lparr>lastBranch = None, pending = []\<rparr>
   \<and> run (powr) (register repoDetached (host0\<lparr>colorCustomizations := Some colored\<rparr>))
         [Run (0, 0, 0), Change None, Run (0, 0, 0)]
     = register repoDetached (host0\<lparr>colorCustomizations := Some colored\<rparr>)
   \<and> blobLookup (vscode (run (powr)
         (register repoDetached (host0\<lparr>colorCustomizations := Some colored\<rparr>))
         [Run (0, 0, 0), Change None, Run (0, 0, 0)])) ''titleBar.activeBackground''
     = Some (JStr ''#c32222'')
   \<and> watch (register (repoOn (Some ''feature-1'')) (host0\<lparr>colorCustomizations := Some colored\<rparr>))
     = \<lparr>lastBranch = Some ''feature-1'', pending = [Some ''feature-1'']\<rparr>
   \<and> watch (run (powr)
         (register (repoOn (Some ''feature-1'')) (host0\<lparr>colorCustomizations := Some colored\<rparr>))
         [Change None])
     = \<lparr>lastBranch = None, pending = [Some ''feature-1'', None]\<rparr>"
proof -
  let ?s = "host0\<lparr>colorCustomizations := Some colored\<rparr>"
  let ?reg = "register repoDetached ?s"
  have d: "branchName repoDetached = None"
    by (simp add: branchName_def repoDetached_def)
  have f: "branchName (repoOn (Some ''feature-1'')) = Some ''feature-1''"
    by (simp add: branchName_def repoOn_def)
  have w: "watch ?reg = \<lparr>lastBranch = None, pending = []\<rparr>"
    using d by (rule register_absent)
  have idle: "step (powr) ?reg (Run (0, 0, 0)) = ?reg"
    by (rule step_Run_idle) (simp add: w)
  have same: "step (powr) ?reg (Change None) = ?reg"
    unfolding step_Change
    by (simp add: register_def repoDetached_def watchRepo_def enqueue_def branchName_def)
  have r: "run (powr) ?reg [Run (0, 0, 0), Change None, Run (0, 0, 0)] = ?reg"
    by (simp add: run_Cons run_Nil idle same)
  have b: "blobLookup (vscode ?reg) ''titleBar.activeBackground'' = Some (JStr ''#c32222'')"
    by (simp add: register_def blobLookup_def blobEntries_def colored_def)
  have n: "watch (register (repoOn (Some ''feature-1'')) ?s)
       = \<lparr>lastBranch = Some ''feature-1'', pending = [Some ''feature-1'']\<rparr>"
    using f by (rule register_named)
  have c: "watch (run (powr) (register (repoOn (Some ''feature-1'')) ?s) [Change None])
       = \<lparr>lastBranch = None, pending = [Some ''feature-1'', None]\<rparr>"
    unfolding run_Cons run_Nil step_Change
    by (simp add: n enqueue_def branchName_def)
  show ?thesis unfolding r using w b n c by simp
qed

end
